theory Spec2Isabelle
  imports Complex_Main
begin

section \<open>Metric-name normalisation (tags.go)\<close>

text \<open>
  A Go string is a sequence of bytes; \<^typ>\<open>string\<close> is used for it, one \<^typ>\<open>char\<close> per
  byte. The two regular expressions of tags.go are
  \<^verbatim>\<open>[^a-zA-Z0-9_]\<close> and \<^verbatim>\<open>([a-z0-9])([A-Z])\<close>.
\<close>

definition upperChars :: string where
  "upperChars = ''ABCDEFGHIJKLMNOPQRSTUVWXYZ''"

definition lowerChars :: string where
  "lowerChars = ''abcdefghijklmnopqrstuvwxyz''"

definition digitChars :: string where
  "digitChars = ''0123456789''"

definition isUpper :: "char \<Rightarrow> bool" where
  "isUpper c = (c \<in> set upperChars)"

definition isLowerOrDigit :: "char \<Rightarrow> bool" where
  "isLowerOrDigit c = (c \<in> set lowerChars \<or> c \<in> set digitChars)"

text \<open>The complement of the class \<^verbatim>\<open>[^a-zA-Z0-9_]\<close>.\<close>

definition isLabelChar :: "char \<Rightarrow> bool" where
  "isLabelChar c = (isLowerOrDigit c \<or> isUpper c \<or> c = CHR ''_'')"

text \<open>
  The regexp engine steps through its input rune by rune, decoding UTF-8 as
  \<^verbatim>\<open>utf8.DecodeRuneInString\<close> does: a well-formed multi-byte sequence is one rune, any
  other byte at or above 0x80 is the error rune of width one. \<open>runeLen\<close> is the number of
  bytes the first rune of a non-empty string occupies.
\<close>

definition contByte :: "nat \<Rightarrow> nat \<Rightarrow> char \<Rightarrow> bool" where
  "contByte lo hi c = (lo \<le> (of_char c :: nat) \<and> (of_char c :: nat) \<le> hi)"

fun runeTail :: "nat \<Rightarrow> nat \<Rightarrow> nat \<Rightarrow> string \<Rightarrow> nat" where
  "runeTail sz lo hi cs =
     (if length cs + 1 < sz then 1
      else if \<not> contByte lo hi (cs ! 0) then 1
      else if sz \<le> 2 then 2
      else if \<not> contByte 128 191 (cs ! 1) then 1
      else if sz \<le> 3 then 3
      else if \<not> contByte 128 191 (cs ! 2) then 1
      else 4)"

fun runeLen :: "string \<Rightarrow> nat" where
  "runeLen [] = 0"
| "runeLen (c # cs) =
     (let b = (of_char c :: nat) in
      if b < 128 then 1
      else if b < 194 then 1
      else if b < 224 then runeTail 2 128 191 cs
      else if b = 224 then runeTail 3 160 191 cs
      else if b < 237 then runeTail 3 128 191 cs
      else if b = 237 then runeTail 3 128 159 cs
      else if b < 240 then runeTail 3 128 191 cs
      else if b = 240 then runeTail 4 144 191 cs
      else if b < 244 then runeTail 4 128 191 cs
      else if b = 244 then runeTail 4 128 143 cs
      else 1)"

text \<open>
  \<^verbatim>\<open>invalidLabelCharactersRE.ReplaceAllString(s, "_")\<close>: every rune outside the class
  becomes one underscore.
\<close>

fun replaceInvalid :: "string \<Rightarrow> string" where
  "replaceInvalid [] = []"
| "replaceInvalid (c # cs) =
     (if isLabelChar c then c # replaceInvalid cs
      else CHR ''_'' # replaceInvalid (drop (runeLen (c # cs) - 1) cs))"

text \<open>
  \<^verbatim>\<open>matchAllCap.ReplaceAllString(s, "${1}_${2}")\<close>: matches are found left to right and do
  not overlap, so the scan resumes after the upper-case letter of a match.
\<close>

fun insertUnderscores :: "string \<Rightarrow> string" where
  "insertUnderscores (a # b # cs) =
     (if isLowerOrDigit a \<and> isUpper b then a # CHR ''_'' # b # insertUnderscores cs
      else a # insertUnderscores (b # cs))"
| "insertUnderscores cs = cs"

text \<open>
  \<^verbatim>\<open>strings.ToLower\<close> on a string of ASCII bytes maps \<open>A\<close>..\<open>Z\<close> to \<open>a\<close>..\<open>z\<close> and
  keeps every other byte; \<open>toSnakeCase\<close> is only called on the output of
  \<open>replaceInvalid\<close>, which is ASCII (lemma \<open>replaceInvalid_label\<close>).
\<close>

definition toLowerChar :: "char \<Rightarrow> char" where
  "toLowerChar c = (case map_of (zip upperChars lowerChars) c of Some d \<Rightarrow> d | None \<Rightarrow> c)"

definition toSnakeCase :: "string \<Rightarrow> string" where
  "toSnakeCase s = map toLowerChar (insertUnderscores s)"

definition ToPrometheusNamingFormat :: "string \<Rightarrow> string" where
  "ToPrometheusNamingFormat s = toSnakeCase (replaceInvalid s)"

text \<open>The characters a normalised name is made of: \<^verbatim>\<open>[a-z0-9_]\<close>.\<close>

definition finalChar :: "char \<Rightarrow> bool" where
  "finalChar c = (isLowerOrDigit c \<or> c = CHR ''_'')"

section \<open>Errors, panics and results (service_quotas.go)\<close>

text \<open>
  The four sentinel errors of the package, the errors of the provider's API (opaque to this
  package), the \<^verbatim>\<open>*strconv.NumError\<close> of \<^verbatim>\<open>strconv.Atoi\<close>, and
  \<^verbatim>\<open>errors.Wrapf(sentinel, "%w", err)\<close>, which wraps the sentinel and formats the second
  error (possibly nil) into the message.
\<close>

datatype num_error = ErrSyntax | ErrRange

datatype error =
    ApiError string
  | NumError string string num_error
  | ErrInvalidRegion
  | ErrFailedToListQuotas
  | ErrFailedToGetUsage
  | ErrFailedToConvertCidr
  | Wrapf error "error option"

text \<open>
  A Go call either returns or panics; a panic unwinds through every caller, none of which
  recovers in this package.
\<close>

datatype panic = PanicError error | SliceBoundsOutOfRange

datatype 'a outcome = Returns 'a | Panics panic

record QuotaUsage =
  Name :: string
  ResourceName :: "string option"
  Description :: string
  Usage :: real
  Quota :: real
  Tags :: "(string \<times> string) list option"

text \<open>
  \<^verbatim>\<open>float64\<close> values are modelled by \<^typ>\<open>real\<close>: conversions from integers and the
  arithmetic on them are exact as long as magnitudes stay below \<open>2^53\<close>.
  A composite literal that does not mention a field leaves it at its zero value.
\<close>

definition newQuotaUsage :: "string \<Rightarrow> string option \<Rightarrow> string \<Rightarrow> real \<Rightarrow> (string \<times> string) list option \<Rightarrow> QuotaUsage" where
  "newQuotaUsage n rn d u t =
     \<lparr>Name = n, ResourceName = rn, Description = d, Usage = u, Quota = 0, Tags = t\<rparr>"

definition Identifier :: "QuotaUsage \<Rightarrow> string" where
  "Identifier q = (case ResourceName q of Some rn \<Rightarrow> rn | None \<Rightarrow> Name q)"

text \<open>
  The pair \<^verbatim>\<open>([]QuotaUsage, error)\<close>: \<open>None\<close> is the nil slice, respectively the nil
  error. \<^verbatim>\<open>UsageCheck\<close> is an interface with the single method \<^verbatim>\<open>Usage()\<close>; against a
  fixed snapshot of the provider's answers an interface value is what a call of that method
  yields.
\<close>

type_synonym usage_result = "QuotaUsage list option \<times> error option"

type_synonym UsageCheck = "usage_result outcome"

text \<open>Ranging over a slice that may be nil.\<close>

definition elems :: "'a list option \<Rightarrow> 'a list" where
  "elems xs = (case xs of None \<Rightarrow> [] | Some ys \<Rightarrow> ys)"

section \<open>Paginated enumeration\<close>

text \<open>
  What a paginated operation of the provider answers, request after request: a failure,
  a page without a continuation token, or a page with one, followed by the answers to the
  next request.
\<close>

datatype 'p paged = Failed error | LastPage 'p | MorePages 'p "'p paged"

text \<open>
  The SDK's \<^verbatim>\<open>XxxPages(params, fn)\<close>: each page is handed to \<open>fn\<close> together with
  \<open>lastPage\<close>; the walk ends when \<open>fn\<close> returns false, when there is no further page, or
  when a request fails, and that failure is what the call returns. The third argument is the
  state of the variables the callback has captured.
\<close>

fun eachPage :: "('p \<Rightarrow> bool \<Rightarrow> 's \<Rightarrow> (bool \<times> 's) outcome) \<Rightarrow> 'p paged \<Rightarrow> 's \<Rightarrow> ('s \<times> error option) outcome" where
  "eachPage fn (Failed e) s = Returns (s, Some e)"
| "eachPage fn (LastPage p) s =
     (case fn p True s of
        Panics x \<Rightarrow> Panics x
      | Returns (cont, s') \<Rightarrow> Returns (s', None))"
| "eachPage fn (MorePages p rest) s =
     (case fn p False s of
        Panics x \<Rightarrow> Panics x
      | Returns (cont, s') \<Rightarrow> if cont then eachPage fn rest s' else Returns (s', None))"

text \<open>All items of all pages that are delivered, and the failure that ends the walk, if any.\<close>

fun pagedItems :: "'a list option paged \<Rightarrow> 'a list" where
  "pagedItems (Failed e) = []"
| "pagedItems (LastPage p) = elems p"
| "pagedItems (MorePages p rest) = elems p @ pagedItems rest"

fun pagedError :: "'p paged \<Rightarrow> error option" where
  "pagedError (Failed e) = Some e"
| "pagedError (LastPage p) = None"
| "pagedError (MorePages p rest) = pagedError rest"

text \<open>
  The state after a walk whose callback handles every page it is given and then asks for
  the next one.
\<close>

fun foldPages :: "('p \<Rightarrow> 's \<Rightarrow> 's) \<Rightarrow> 'p option paged \<Rightarrow> 's \<Rightarrow> 's" where
  "foldPages body (Failed e) s = s"
| "foldPages body (LastPage p) s = (case p of None \<Rightarrow> s | Some x \<Rightarrow> body x s)"
| "foldPages body (MorePages p rest) s =
     foldPages body rest (case p of None \<Rightarrow> s | Some x \<Rightarrow> body x s)"

section \<open>The aggregator (service_quotas.go)\<close>

definition allServices :: "string list" where
  "allServices = [''ec2'', ''vpc'', ''rds'', ''ecr'', ''ecs'', ''logs'', ''kinesisanalytics'',
                  ''redshift'', ''ebs'', ''glue'']"

text \<open>
  A quota of the catalog; \<open>QuotaCode\<close> and \<open>Value\<close> are dereferenced without a nil check,
  the catalog always sets them.
\<close>

record ServiceQuota =
  QuotaCode :: string
  Value :: real

record ServiceQuotasAPI =
  ListServiceQuotasPages :: "string \<Rightarrow> ServiceQuota list option paged"
  ListAWSDefaultServiceQuotasPages :: "string \<Rightarrow> ServiceQuota list option paged"

record ServiceQuotas =
  region :: string
  isAwsChina :: bool
  quotasService :: ServiceQuotasAPI
  serviceQuotasUsageChecks :: "string \<rightharpoonup> UsageCheck"
  serviceDefaultUsageChecks :: "string \<rightharpoonup> UsageCheck"
  otherUsageChecks :: "UsageCheck list"

text \<open>
  \<^verbatim>\<open>for _, quotaUsage := range quotaUsages { quotaUsage.Quota = *quota.Value; append }\<close>
\<close>

definition withQuota :: "real \<Rightarrow> QuotaUsage list option \<Rightarrow> QuotaUsage list" where
  "withQuota v quotaUsages = map (\<lambda>quotaUsage. quotaUsage\<lparr>Quota := v\<rparr>) (elems quotaUsages)"

text \<open>
  The loop over the quotas of one page, in the callback of \<open>quotasForService\<close> and of
  \<open>defaultsForService\<close>. The state is the pair of captured variables
  (\<open>serviceQuotaUsages\<close>, \<open>usageErr\<close>); the flag says whether the loop body has returned
  from the callback (\<^verbatim>\<open>return true\<close>, so the walk goes on to the next page).
\<close>

fun quotasLoop :: "(string \<rightharpoonup> UsageCheck) \<Rightarrow> ServiceQuota list \<Rightarrow> QuotaUsage list \<times> error option
    \<Rightarrow> (bool \<times> QuotaUsage list \<times> error option) outcome" where
  "quotasLoop checks [] st = Returns (False, st)"
| "quotasLoop checks (quota # quotas) (serviceQuotaUsages, usageErr) =
     (case checks (QuotaCode quota) of
        None \<Rightarrow> quotasLoop checks quotas (serviceQuotaUsages, usageErr)
      | Some check \<Rightarrow>
          (case check of
             Panics x \<Rightarrow> Panics x
           | Returns (quotaUsages, err) \<Rightarrow>
               if err \<noteq> None then Returns (True, serviceQuotaUsages, err)
               else quotasLoop checks quotas
                      (serviceQuotaUsages @ withQuota (Value quota) quotaUsages, usageErr)))"

definition quotasCallback :: "(string \<rightharpoonup> UsageCheck) \<Rightarrow> ServiceQuota list option \<Rightarrow> bool
    \<Rightarrow> QuotaUsage list \<times> error option \<Rightarrow> (bool \<times> QuotaUsage list \<times> error option) outcome" where
  "quotasCallback checks page lastPage st =
     (case page of
        None \<Rightarrow> Returns (\<not> lastPage, st)
      | Some quotas \<Rightarrow>
          (case quotasLoop checks quotas st of
             Panics x \<Rightarrow> Panics x
           | Returns (returned, st') \<Rightarrow>
               if returned then Returns (True, st') else Returns (\<not> lastPage, st')))"

definition walkQuotas :: "(string \<rightharpoonup> UsageCheck) \<Rightarrow> ServiceQuota list option paged \<Rightarrow> usage_result outcome" where
  "walkQuotas checks pages =
     (case eachPage (quotasCallback checks) pages ([], None) of
        Panics x \<Rightarrow> Panics x
      | Returns ((serviceQuotaUsages, usageErr), err) \<Rightarrow>
          if err \<noteq> None then Returns (None, Some (Wrapf ErrFailedToListQuotas err))
          else if usageErr \<noteq> None then Returns (None, usageErr)
          else Returns (Some serviceQuotaUsages, None))"

definition quotasForService :: "ServiceQuotas \<Rightarrow> string \<Rightarrow> usage_result outcome" where
  "quotasForService s service =
     walkQuotas (serviceQuotasUsageChecks s) (ListServiceQuotasPages (quotasService s) service)"

definition defaultsForService :: "ServiceQuotas \<Rightarrow> string \<Rightarrow> usage_result outcome" where
  "defaultsForService s service =
     walkQuotas (serviceDefaultUsageChecks s)
       (ListAWSDefaultServiceQuotasPages (quotasService s) service)"

text \<open>
  The three loops of \<open>QuotasAndUsage\<close>; each returns from the function with
  \<^verbatim>\<open>nil, err\<close> at the first error.
\<close>

fun servicesLoop :: "(string \<Rightarrow> usage_result outcome) \<Rightarrow> string list \<Rightarrow> QuotaUsage list
    \<Rightarrow> (QuotaUsage list + error) outcome" where
  "servicesLoop forService [] allQuotaUsages = Returns (Inl allQuotaUsages)"
| "servicesLoop forService (service # services) allQuotaUsages =
     (case forService service of
        Panics x \<Rightarrow> Panics x
      | Returns (serviceQuotas, err) \<Rightarrow>
          (case err of
             Some e \<Rightarrow> Returns (Inr e)
           | None \<Rightarrow> servicesLoop forService services (allQuotaUsages @ elems serviceQuotas)))"

fun otherChecksLoop :: "UsageCheck list \<Rightarrow> QuotaUsage list \<Rightarrow> (QuotaUsage list + error) outcome" where
  "otherChecksLoop [] allQuotaUsages = Returns (Inl allQuotaUsages)"
| "otherChecksLoop (check # checks) allQuotaUsages =
     (case check of
        Panics x \<Rightarrow> Panics x
      | Returns (quotas, err) \<Rightarrow>
          (case err of
             Some e \<Rightarrow> Returns (Inr e)
           | None \<Rightarrow> otherChecksLoop checks (allQuotaUsages @ elems quotas)))"

definition QuotasAndUsage :: "ServiceQuotas \<Rightarrow> usage_result outcome" where
  "QuotasAndUsage s =
     (let catalog =
        (if \<not> isAwsChina s then
           (case servicesLoop (quotasForService s) allServices [] of
              Panics x \<Rightarrow> Panics x
            | Returns (Inr e) \<Rightarrow> Returns (Inr e)
            | Returns (Inl allQuotaUsages) \<Rightarrow>
                servicesLoop (defaultsForService s) allServices allQuotaUsages)
         else Returns (Inl []))
      in case catalog of
           Panics x \<Rightarrow> Panics x
         | Returns (Inr e) \<Rightarrow> Returns (None, Some e)
         | Returns (Inl allQuotaUsages) \<Rightarrow>
             (case otherChecksLoop (otherUsageChecks s) allQuotaUsages of
                Panics x \<Rightarrow> Panics x
              | Returns (Inr e) \<Rightarrow> Returns (None, Some e)
              | Returns (Inl allQuotaUsages') \<Rightarrow> Returns (Some allQuotaUsages', None)))"

section \<open>Integers and conversions of the usage checks\<close>

text \<open>
  Go's \<^verbatim>\<open>int\<close> and \<^verbatim>\<open>int64\<close> are 64-bit two's complement: sums and products wrap.
  \<^verbatim>\<open>len\<close> of a slice is its length. Integer division truncates towards zero.
\<close>

definition wrap64 :: "int \<Rightarrow> int" where
  "wrap64 n = (n + 2 ^ 63) mod 2 ^ 64 - 2 ^ 63"

definition add64 :: "int \<Rightarrow> int \<Rightarrow> int" where
  "add64 a b = wrap64 (a + b)"

definition mul64 :: "int \<Rightarrow> int \<Rightarrow> int" where
  "mul64 a b = wrap64 (a * b)"

definition len :: "'a list \<Rightarrow> int" where
  "len xs = int (length xs)"

definition quot :: "int \<Rightarrow> int \<Rightarrow> int" where
  "quot a b = sgn a * sgn b * (\<bar>a\<bar> div \<bar>b\<bar>)"

text \<open>
  \<^verbatim>\<open>int(f)\<close> of a \<^verbatim>\<open>float64\<close> drops the fraction (for a value within the range of
  \<^verbatim>\<open>int\<close>; the provider's capacities are).
\<close>

definition truncToInt :: "real \<Rightarrow> int" where
  "truncToInt f = (if 0 \<le> f then \<lfloor>f\<rfloor> else \<lceil>f\<rceil>)"

text \<open>
  \<^verbatim>\<open>strconv.Atoi\<close>: an optional sign and then decimal digits only; a value outside the
  64-bit range is a range error, with the nearest bound as value.
\<close>

definition digitVal :: "char \<Rightarrow> int option" where
  "digitVal c = map_of (zip digitChars [0, 1, 2, 3, 4, 5, 6, 7, 8, 9]) c"

fun parseUint :: "string \<Rightarrow> int \<Rightarrow> num_error + int" where
  "parseUint [] n = Inr n"
| "parseUint (c # cs) n =
     (case digitVal c of
        None \<Rightarrow> Inl ErrSyntax
      | Some d \<Rightarrow> if n * 10 + d > 2 ^ 64 - 1 then Inl ErrRange else parseUint cs (n * 10 + d))"

definition Atoi :: "string \<Rightarrow> int \<times> error option" where
  "Atoi s =
     (case s of
        [] \<Rightarrow> (0, Some (NumError ''Atoi'' s ErrSyntax))
      | c # cs \<Rightarrow>
          (let neg = (c = CHR ''-'');
               digits = (if c = CHR ''-'' \<or> c = CHR ''+'' then cs else s)
           in if digits = [] then (0, Some (NumError ''Atoi'' s ErrSyntax))
              else (case parseUint digits 0 of
                      Inl ErrSyntax \<Rightarrow> (0, Some (NumError ''Atoi'' s ErrSyntax))
                    | Inl ErrRange \<Rightarrow>
                        (if neg then - (2 ^ 63) else 2 ^ 63 - 1, Some (NumError ''Atoi'' s ErrRange))
                    | Inr un \<Rightarrow>
                        if \<not> neg \<and> un \<ge> 2 ^ 63 then (2 ^ 63 - 1, Some (NumError ''Atoi'' s ErrRange))
                        else if neg \<and> un > 2 ^ 63 then (- (2 ^ 63), Some (NumError ''Atoi'' s ErrRange))
                        else (if neg then - un else un, None))))"

text \<open>A Go map from strings to strings, as the list of its entries; storing replaces.\<close>

fun mapStore :: "string \<Rightarrow> string \<Rightarrow> (string \<times> string) list \<Rightarrow> (string \<times> string) list" where
  "mapStore k v [] = [(k, v)]"
| "mapStore k v ((k', v') # m) = (if k' = k then (k, v) # m else (k', v') # mapStore k v m)"

section \<open>The shape shared by the usage checks\<close>

text \<open>
  Most callbacks are \<^verbatim>\<open>if page != nil { body }; return !lastPage\<close>, and most checks end with
  \<^verbatim>\<open>if err != nil { return nil, errors.Wrapf(ErrFailedToGetUsage, "%w", err) }\<close>
  followed by the return of the records.
\<close>

definition onPage :: "('p \<Rightarrow> 's \<Rightarrow> 's) \<Rightarrow> 'p option \<Rightarrow> bool \<Rightarrow> 's \<Rightarrow> (bool \<times> 's) outcome" where
  "onPage body page lastPage s =
     Returns (\<not> lastPage, case page of None \<Rightarrow> s | Some p \<Rightarrow> body p s)"

definition usageOrError :: "('s \<times> error option) outcome \<Rightarrow> ('s \<Rightarrow> QuotaUsage list) \<Rightarrow> usage_result outcome" where
  "usageOrError walked records =
     (case walked of
        Panics x \<Rightarrow> Panics x
      | Returns (s, err) \<Rightarrow>
          if err \<noteq> None then Returns (None, Some (Wrapf ErrFailedToGetUsage err))
          else Returns (Some (records s), None))"

text \<open>A check that adds up one number per item and reports the total in one record.\<close>

definition totalOf :: "('a \<Rightarrow> int) \<Rightarrow> 'a list \<Rightarrow> int \<Rightarrow> int" where
  "totalOf f items count = foldl (\<lambda>t item. add64 t (f item)) count items"

definition countPage :: "'a list \<Rightarrow> int \<Rightarrow> int" where
  "countPage items count = add64 count (len items)"

section \<open>EC2 usage checks\<close>

abbreviation inboundRulesPerSecGrpName :: string where
  "inboundRulesPerSecGrpName \<equiv> ''inbound_rules_per_security_group''"
abbreviation inboundRulesPerSecGrpDesc :: string where
  "inboundRulesPerSecGrpDesc \<equiv> ''inbound rules per security group''"
abbreviation outboundRulesPerSecGrpName :: string where
  "outboundRulesPerSecGrpName \<equiv> ''outbound_rules_per_security_group''"
abbreviation outboundRulesPerSecGrpDesc :: string where
  "outboundRulesPerSecGrpDesc \<equiv> ''outbound rules per security group''"
abbreviation eNIsPerRegionName :: string where
  "eNIsPerRegionName \<equiv> ''enis_per_region''"
abbreviation eNIsPerRegionDescription :: string where
  "eNIsPerRegionDescription \<equiv> ''ENIs per region''"
abbreviation secGroupsPerENIName :: string where
  "secGroupsPerENIName \<equiv> ''security_groups_per_network_interface''"
abbreviation secGroupsPerENIDesc :: string where
  "secGroupsPerENIDesc \<equiv> ''security groups per network interface''"
abbreviation securityGroupsPerRegionName :: string where
  "securityGroupsPerRegionName \<equiv> ''security_groups_per_region''"
abbreviation securityGroupsPerRegionDesc :: string where
  "securityGroupsPerRegionDesc \<equiv> ''security groups per region''"
abbreviation spotInstanceRequestsName :: string where
  "spotInstanceRequestsName \<equiv> ''spot_instance_requests''"
abbreviation spotInstanceRequestsDesc :: string where
  "spotInstanceRequestsDesc \<equiv> ''spot instance requests''"
abbreviation onDemandInstanceRequestsName :: string where
  "onDemandInstanceRequestsName \<equiv> ''ondemand_instance_requests''"
abbreviation onDemandInstanceRequestsDesc :: string where
  "onDemandInstanceRequestsDesc \<equiv> ''ondemand instance requests''"
abbreviation availableIPsPerSubnetName :: string where
  "availableIPsPerSubnetName \<equiv> ''available_ips_per_subnet''"
abbreviation availableIPsPerSubnetDesc :: string where
  "availableIPsPerSubnetDesc \<equiv> ''available IPs per subnet''"
abbreviation maxGp3StoragePerRegionName :: string where
  "maxGp3StoragePerRegionName \<equiv> ''gp3_storage_per_region''"
abbreviation maxGp3StoragePerRegionDescription :: string where
  "maxGp3StoragePerRegionDescription \<equiv> ''GP3 storage per region''"
abbreviation maxGp2StoragePerRegionName :: string where
  "maxGp2StoragePerRegionName \<equiv> ''gp2_storage_per_region''"
abbreviation maxGp2StoragePerRegionDescription :: string where
  "maxGp2StoragePerRegionDescription \<equiv> ''GP2 storage per region''"
abbreviation maxIo1StoragePerRegionName :: string where
  "maxIo1StoragePerRegionName \<equiv> ''io1_storage_per_region''"
abbreviation maxIo1StoragePerRegionDescription :: string where
  "maxIo1StoragePerRegionDescription \<equiv> ''IO1 storage per region''"
abbreviation maxIo2StoragePerRegionName :: string where
  "maxIo2StoragePerRegionName \<equiv> ''io2_storage_per_region''"
abbreviation maxIo2StoragePerRegionDescription :: string where
  "maxIo2StoragePerRegionDescription \<equiv> ''IO2 storage per region''"
abbreviation maxSt1StoragePerRegionName :: string where
  "maxSt1StoragePerRegionName \<equiv> ''st1_storage_per_region''"
abbreviation maxSt1StoragePerRegionDescription :: string where
  "maxSt1StoragePerRegionDescription \<equiv> ''ST1 storage per region''"
abbreviation maxStandardStoragePerRegionName :: string where
  "maxStandardStoragePerRegionName \<equiv> ''standard_storage_per_region''"
abbreviation maxStandardStoragePerRegionDescription :: string where
  "maxStandardStoragePerRegionDescription \<equiv> ''standard storage per region''"
abbreviation maxSc1StoragePerRegionName :: string where
  "maxSc1StoragePerRegionName \<equiv> ''sc1_storage_per_region''"
abbreviation maxSc1StoragePerRegionDescription :: string where
  "maxSc1StoragePerRegionDescription \<equiv> ''SC1 storage per region''"
abbreviation ebsSnapshotsPerRegionName :: string where
  "ebsSnapshotsPerRegionName \<equiv> ''ebs_snapshots_per_region''"
abbreviation ebsSnapshotsPerRegionDescription :: string where
  "ebsSnapshotsPerRegionDescription \<equiv> ''EBS snapshots per region''"
abbreviation maxIo2IopsPerRegionName :: string where
  "maxIo2IopsPerRegionName \<equiv> ''total_io2_iops_per_region''"
abbreviation maxIo2IopsPerRegionDescription :: string where
  "maxIo2IopsPerRegionDescription \<equiv> ''total IO2 IOPS per region''"
abbreviation maxIo1IopsPerRegionName :: string where
  "maxIo1IopsPerRegionName \<equiv> ''total_io1_iops_per_region''"
abbreviation maxIo1IopsPerRegionDescription :: string where
  "maxIo1IopsPerRegionDescription \<equiv> ''total IO1 IOPS per region''"

text \<open>
  The parts of the provider's answers that the checks read. A pointer that the code
  dereferences without a nil check is a plain value (the provider always sets it); one
  that it tests or copies is an option. An \<^verbatim>\<open>ec2.Tag\<close> is the pair of its key and value;
  an item of which only the number matters is its identifier.
\<close>

type_synonym Tag = "string \<times> string"

type_synonym Filter = "string \<times> string list"

record IpPermission =
  IpRanges :: "string list"
  UserIdGroupPairs :: "string list"

record SecurityGroup =
  GroupId :: "string option"
  GroupTags :: "Tag list"
  IpPermissions :: "IpPermission list"
  IpPermissionsEgress :: "IpPermission list"

record NetworkInterface =
  NetworkInterfaceId :: "string option"
  Groups :: "string list"
  TagSet :: "Tag list"

record CpuOptions =
  CoreCount :: "int option"
  ThreadsPerCore :: "int option"

record Instance =
  InstanceLifecycle :: "string option"
  InstanceCpuOptions :: CpuOptions

record Subnet =
  SubnetId :: "string option"
  CidrBlock :: string
  AvailableIpAddressCount :: int
  SubnetTags :: "Tag list"

record Volume =
  Size :: int
  Iops :: int

record EC2API =
  DescribeSecurityGroupsPages :: "SecurityGroup list option paged"
  DescribeNetworkInterfacesPages :: "NetworkInterface list option paged"
  DescribeInstancesPages :: "Filter list \<Rightarrow> Instance list list option paged"
  DescribeSubnetsPages :: "Subnet list option paged"
  DescribeVolumesPages :: "Filter list \<Rightarrow> Volume list option paged"
  DescribeSnapshotsPages :: "string list option paged"

definition ec2TagsToQuotaUsageTags :: "Tag list \<Rightarrow> (string \<times> string) list option" where
  "ec2TagsToQuotaUsageTags tags =
     (if length tags = 0 then None
      else Some (foldl (\<lambda>out (key, val). mapStore (ToPrometheusNamingFormat key) val out) [] tags))"

definition ruleCount :: "(IpPermission \<Rightarrow> int) \<Rightarrow> IpPermission list \<Rightarrow> int" where
  "ruleCount f rules = totalOf f rules 0"

text \<open>
  In the loop over the egress rules the user-group pairs are added to \<open>inboundRules\<close>,
  after \<open>inboundUsage\<close> has been built, so they reach neither record.
\<close>

definition securityGroupUsages :: "SecurityGroup \<Rightarrow> QuotaUsage list" where
  "securityGroupUsages secGroup =
     (let tags = ec2TagsToQuotaUsageTags (GroupTags secGroup);
          inboundRules = ruleCount (\<lambda>rule. add64 (len (IpRanges rule)) (len (UserIdGroupPairs rule)))
                           (IpPermissions secGroup);
          inboundUsage = newQuotaUsage inboundRulesPerSecGrpName (GroupId secGroup)
                           inboundRulesPerSecGrpDesc (real_of_int inboundRules) tags;
          outboundRules = ruleCount (\<lambda>rule. len (IpRanges rule)) (IpPermissionsEgress secGroup);
          outboundUsage = newQuotaUsage outboundRulesPerSecGrpName (GroupId secGroup)
                            outboundRulesPerSecGrpDesc (real_of_int outboundRules) tags
      in [inboundUsage, outboundUsage])"

definition RulesPerSecurityGroupUsageCheck :: "EC2API \<Rightarrow> UsageCheck" where
  "RulesPerSecurityGroupUsageCheck client =
     usageOrError
       (eachPage (onPage (\<lambda>groups quotaUsages. quotaUsages @ concat (map securityGroupUsages groups)))
          (DescribeSecurityGroupsPages client) [])
       (\<lambda>quotaUsages. quotaUsages)"

definition eniUsage :: "NetworkInterface \<Rightarrow> QuotaUsage" where
  "eniUsage eni =
     newQuotaUsage secGroupsPerENIName (NetworkInterfaceId eni) secGroupsPerENIDesc
       (real_of_int (len (Groups eni))) (ec2TagsToQuotaUsageTags (TagSet eni))"

definition SecurityGroupsPerENIUsageCheck :: "EC2API \<Rightarrow> UsageCheck" where
  "SecurityGroupsPerENIUsageCheck client =
     usageOrError
       (eachPage (onPage (\<lambda>enis quotaUsages. quotaUsages @ map eniUsage enis))
          (DescribeNetworkInterfacesPages client) [])
       (\<lambda>quotaUsages. quotaUsages)"

definition SecurityGroupsPerRegionUsageCheck :: "EC2API \<Rightarrow> UsageCheck" where
  "SecurityGroupsPerRegionUsageCheck client =
     usageOrError (eachPage (onPage countPage) (DescribeSecurityGroupsPages client) 0)
       (\<lambda>numGroups. [newQuotaUsage securityGroupsPerRegionName None securityGroupsPerRegionDesc
                        (real_of_int numGroups) None])"

definition standardInstanceTypeFilter :: Filter where
  "standardInstanceTypeFilter =
     (''instance-type'', [''a*'', ''c*'', ''d*'', ''h*'', ''i*'', ''m*'', ''r*'', ''t*'', ''z*''])"

definition activeInstanceFilter :: Filter where
  "activeInstanceFilter = (''instance-state-name'', [''pending'', ''running''])"

definition instanceCPUs :: "bool \<Rightarrow> Instance \<Rightarrow> int \<Rightarrow> int" where
  "instanceCPUs spotInstances instance totalvCPUs =
     (if \<not> spotInstances \<and> InstanceLifecycle instance \<noteq> None then totalvCPUs
      else (case (CoreCount (InstanceCpuOptions instance), ThreadsPerCore (InstanceCpuOptions instance)) of
              (Some coreCount, Some threadsPerCore) \<Rightarrow> add64 totalvCPUs (mul64 coreCount threadsPerCore)
            | _ \<Rightarrow> totalvCPUs))"

definition standardInstancesCPUs :: "EC2API \<Rightarrow> bool \<Rightarrow> (int \<times> error option) outcome" where
  "standardInstancesCPUs ec2Service spotInstances =
     (let filters = [standardInstanceTypeFilter, activeInstanceFilter]
                    @ (if spotInstances then [(''instance-lifecycle'', [''spot''])] else [])
      in case eachPage
                (onPage (\<lambda>reservations totalvCPUs.
                   foldl (\<lambda>t instance. instanceCPUs spotInstances instance t) totalvCPUs
                     (concat reservations)))
                (DescribeInstancesPages ec2Service filters) 0 of
           Panics x \<Rightarrow> Panics x
         | Returns (totalvCPUs, err) \<Rightarrow>
             if err \<noteq> None then Returns (0, err) else Returns (totalvCPUs, None))"

definition StandardSpotInstanceRequestsUsageCheck :: "EC2API \<Rightarrow> UsageCheck" where
  "StandardSpotInstanceRequestsUsageCheck client =
     usageOrError (standardInstancesCPUs client True)
       (\<lambda>cpus. [newQuotaUsage spotInstanceRequestsName None spotInstanceRequestsDesc
                   (real_of_int cpus) None])"

definition RunningOnDemandStandardInstancesUsageCheck :: "EC2API \<Rightarrow> UsageCheck" where
  "RunningOnDemandStandardInstancesUsageCheck client =
     usageOrError (standardInstancesCPUs client False)
       (\<lambda>cpus. [newQuotaUsage onDemandInstanceRequestsName None onDemandInstanceRequestsDesc
                   (real_of_int cpus) None])"

text \<open>
  \<open>AvailableIpsPerSubnetUsageCheck\<close>. The prefix length is read from the last two bytes of
  the CIDR block (\<^verbatim>\<open>cidrBlock[len(cidrBlock)-2:]\<close>, which panics on a block shorter than
  two bytes); \<^verbatim>\<open>math.Pow(2, x)\<close> is the real power. The loop returns from the callback
  with \<^verbatim>\<open>true\<close> at a conversion error.
\<close>

fun subnetsLoop :: "Subnet list \<Rightarrow> QuotaUsage list \<times> error option
    \<Rightarrow> (bool \<times> QuotaUsage list \<times> error option) outcome" where
  "subnetsLoop [] st = Returns (False, st)"
| "subnetsLoop (subnet # subnets) (availabilityInfos, conversionErr) =
     (let cidrBlock = CidrBlock subnet in
      if length cidrBlock < 2 then Panics SliceBoundsOutOfRange
      else (case Atoi (drop (length cidrBlock - 2) cidrBlock) of
              (blockedBits, Some err) \<Rightarrow>
                Returns (True, availabilityInfos, Some (Wrapf ErrFailedToConvertCidr (Some err)))
            | (blockedBits, None) \<Rightarrow>
                (let maxNumOfIPs = 2 powr (32 - real_of_int blockedBits);
                     usage = maxNumOfIPs - real_of_int (AvailableIpAddressCount subnet);
                     availabilityInfo =
                       \<lparr>Name = availableIPsPerSubnetName, ResourceName = SubnetId subnet,
                        Description = availableIPsPerSubnetDesc, Usage = usage,
                        Quota = maxNumOfIPs,
                        Tags = ec2TagsToQuotaUsageTags (SubnetTags subnet)\<rparr>
                 in subnetsLoop subnets (availabilityInfos @ [availabilityInfo], conversionErr))))"

definition subnetsCallback :: "Subnet list option \<Rightarrow> bool \<Rightarrow> QuotaUsage list \<times> error option
    \<Rightarrow> (bool \<times> QuotaUsage list \<times> error option) outcome" where
  "subnetsCallback page lastPage st =
     (case page of
        None \<Rightarrow> Returns (\<not> lastPage, st)
      | Some subnets \<Rightarrow>
          (case subnetsLoop subnets st of
             Panics x \<Rightarrow> Panics x
           | Returns (returned, st') \<Rightarrow>
               if returned then Returns (True, st') else Returns (\<not> lastPage, st')))"

definition AvailableIpsPerSubnetUsageCheck :: "EC2API \<Rightarrow> UsageCheck" where
  "AvailableIpsPerSubnetUsageCheck client =
     (case eachPage subnetsCallback (DescribeSubnetsPages client) ([], None) of
        Panics x \<Rightarrow> Panics x
      | Returns ((availabilityInfos, conversionErr), err) \<Rightarrow>
          if err \<noteq> None then Returns (None, Some (Wrapf ErrFailedToGetUsage err))
          else if conversionErr \<noteq> None then Returns (None, conversionErr)
          else Returns (Some availabilityInfos, None))"

text \<open>
  The seven storage checks and the two IOPS checks differ in the volume type they filter
  on, in their names, and in whether the total is divided by 1024.
\<close>

definition volumesTotal :: "EC2API \<Rightarrow> string \<Rightarrow> (Volume \<Rightarrow> int) \<Rightarrow> (int \<times> error option) outcome" where
  "volumesTotal client volumeType field =
     eachPage (onPage (totalOf field)) (DescribeVolumesPages client [(''volume-type'', [volumeType])]) 0"

definition storageCheck :: "EC2API \<Rightarrow> string \<Rightarrow> string \<Rightarrow> string \<Rightarrow> UsageCheck" where
  "storageCheck client volumeType name description =
     usageOrError (volumesTotal client volumeType Size)
       (\<lambda>totalStorageCount.
          [newQuotaUsage name None description (real_of_int (quot totalStorageCount 1024)) None])"

definition iopsCheck :: "EC2API \<Rightarrow> string \<Rightarrow> string \<Rightarrow> string \<Rightarrow> UsageCheck" where
  "iopsCheck client volumeType name description =
     usageOrError (volumesTotal client volumeType Iops)
       (\<lambda>totalIopsCount. [newQuotaUsage name None description (real_of_int totalIopsCount) None])"

definition MaxGP2StoragePerRegionCheck :: "EC2API \<Rightarrow> UsageCheck" where
  "MaxGP2StoragePerRegionCheck client =
     storageCheck client ''gp2'' maxGp2StoragePerRegionName maxGp2StoragePerRegionDescription"

definition MaxIo1StoragePerRegionCheck :: "EC2API \<Rightarrow> UsageCheck" where
  "MaxIo1StoragePerRegionCheck client =
     storageCheck client ''io1'' maxIo1StoragePerRegionName maxIo1StoragePerRegionDescription"

definition MaxIo2StoragePerRegionCheck :: "EC2API \<Rightarrow> UsageCheck" where
  "MaxIo2StoragePerRegionCheck client =
     storageCheck client ''io2'' maxIo2StoragePerRegionName maxIo2StoragePerRegionDescription"

definition MaxGP3StoragePerRegionCheck :: "EC2API \<Rightarrow> UsageCheck" where
  "MaxGP3StoragePerRegionCheck client =
     storageCheck client ''gp3'' maxGp3StoragePerRegionName maxGp3StoragePerRegionDescription"

definition MaxSt1StoragePerRegionCheck :: "EC2API \<Rightarrow> UsageCheck" where
  "MaxSt1StoragePerRegionCheck client =
     storageCheck client ''st1'' maxSt1StoragePerRegionName maxSt1StoragePerRegionDescription"

definition MaxStandardStoragePerRegionCheck :: "EC2API \<Rightarrow> UsageCheck" where
  "MaxStandardStoragePerRegionCheck client =
     storageCheck client ''standard'' maxStandardStoragePerRegionName
       maxStandardStoragePerRegionDescription"

definition MaxSc1StoragePerRegionCheck :: "EC2API \<Rightarrow> UsageCheck" where
  "MaxSc1StoragePerRegionCheck client =
     storageCheck client ''sc1'' maxSc1StoragePerRegionName maxSc1StoragePerRegionDescription"

definition MaxIo2IopsPerRegionCheck :: "EC2API \<Rightarrow> UsageCheck" where
  "MaxIo2IopsPerRegionCheck client =
     iopsCheck client ''io2'' maxIo2IopsPerRegionName maxIo2IopsPerRegionDescription"

definition MaxIo1IopsPerRegionCheck :: "EC2API \<Rightarrow> UsageCheck" where
  "MaxIo1IopsPerRegionCheck client =
     iopsCheck client ''io1'' maxIo1IopsPerRegionName maxIo1IopsPerRegionDescription"

definition EbsSnapshotsPerRegionCheck :: "EC2API \<Rightarrow> UsageCheck" where
  "EbsSnapshotsPerRegionCheck client =
     usageOrError (eachPage (onPage countPage) (DescribeSnapshotsPages client) 0)
       (\<lambda>totalSnapshotsCount.
          [newQuotaUsage ebsSnapshotsPerRegionName None ebsSnapshotsPerRegionDescription
             (real_of_int totalSnapshotsCount) None])"

definition ENIsPerRegionCheck :: "EC2API \<Rightarrow> UsageCheck" where
  "ENIsPerRegionCheck client =
     usageOrError (eachPage (onPage countPage) (DescribeNetworkInterfacesPages client) 0)
       (\<lambda>totalENIsCount.
          [newQuotaUsage eNIsPerRegionName None eNIsPerRegionDescription
             (real_of_int totalENIsCount) None])"

section \<open>RDS, ECR, CloudWatch Logs, SES and Redshift usage checks\<close>

abbreviation numReadReplicasPerMasterName :: string where
  "numReadReplicasPerMasterName \<equiv> ''read_replicas_per_master''"
abbreviation numReadReplicasPerMasterDescription :: string where
  "numReadReplicasPerMasterDescription \<equiv> ''read replicas per master''"
abbreviation repositoriesPerRegionName :: string where
  "repositoriesPerRegionName \<equiv> ''repositories_per_region''"
abbreviation repositoriesPerRegionDescription :: string where
  "repositoriesPerRegionDescription \<equiv> ''repositories per region''"
abbreviation imagesPerRepositoryName :: string where
  "imagesPerRepositoryName \<equiv> ''images_per_repository''"
abbreviation imagesPerRepositoryDescription :: string where
  "imagesPerRepositoryDescription \<equiv> ''images per repository''"
abbreviation logGroupsPerRegionName :: string where
  "logGroupsPerRegionName \<equiv> ''log_groups_per_region''"
abbreviation logGroupsPerRegionDescription :: string where
  "logGroupsPerRegionDescription \<equiv> ''log groups per region''"
abbreviation maxSendIn24HoursName :: string where
  "maxSendIn24HoursName \<equiv> ''max_send_in_24_hours''"
abbreviation maxSendIn24HoursDescription :: string where
  "maxSendIn24HoursDescription \<equiv> ''max send in 24 hours''"
abbreviation userSnapshotsPerRegionName :: string where
  "userSnapshotsPerRegionName \<equiv> ''user_snapshots_per_region''"
abbreviation userSnapshotsPerRegionDescription :: string where
  "userSnapshotsPerRegionDescription \<equiv> ''user snapshots per region''"

record DBCluster =
  DBClusterIdentifier :: "string option"
  DBClusterMembers :: "bool list"

text \<open>A cluster member is its \<open>IsClusterWriter\<close> flag.\<close>

record RDSAPI =
  DescribeDBClustersPages :: "DBCluster list option paged"

definition clusterUsage :: "DBCluster \<Rightarrow> QuotaUsage" where
  "clusterUsage cluster =
     (let readReplicas = totalOf (\<lambda>isClusterWriter. if \<not> isClusterWriter then 1 else 0)
                           (DBClusterMembers cluster) 0
      in newQuotaUsage numReadReplicasPerMasterName (DBClusterIdentifier cluster)
           numReadReplicasPerMasterDescription (real_of_int readReplicas) None)"

definition ReadReplicasPerMasterCheck :: "RDSAPI \<Rightarrow> UsageCheck" where
  "ReadReplicasPerMasterCheck client =
     usageOrError
       (eachPage (onPage (\<lambda>clusters quotaUsages. quotaUsages @ map clusterUsage clusters))
          (DescribeDBClustersPages client) [])
       (\<lambda>quotaUsages. quotaUsages)"

text \<open>
  A repository is its \<open>RepositoryName\<close> pointer; of an image only the number matters.
\<close>

record ECRAPI =
  DescribeRepositoriesPages :: "string option list option paged"
  ListImagesPages :: "string option \<Rightarrow> string list option paged"

text \<open>
  \<open>RepositoriesPerRegionCheck\<close> builds and appends its record inside the callback, once
  for every page.
\<close>

definition repositoriesPage :: "string option list \<Rightarrow> int \<times> QuotaUsage list \<Rightarrow> int \<times> QuotaUsage list" where
  "repositoriesPage repositories st =
     (case st of (repositoryCount, quotaUsages) \<Rightarrow>
        (let repositoryCount' = add64 repositoryCount (len repositories);
             usage = newQuotaUsage repositoriesPerRegionName None repositoriesPerRegionDescription
                       (real_of_int repositoryCount') None
         in (repositoryCount', quotaUsages @ [usage])))"

definition RepositoriesPerRegionCheck :: "ECRAPI \<Rightarrow> UsageCheck" where
  "RepositoriesPerRegionCheck client =
     usageOrError (eachPage (onPage repositoriesPage) (DescribeRepositoriesPages client) (0, []))
       (\<lambda>(repositoryCount, quotaUsages). quotaUsages)"

fun imagesLoop :: "ECRAPI \<Rightarrow> string option list \<Rightarrow> QuotaUsage list \<Rightarrow> usage_result outcome" where
  "imagesLoop client [] quotaUsages = Returns (Some quotaUsages, None)"
| "imagesLoop client (repo # repos) quotaUsages =
     (case eachPage (onPage countPage) (ListImagesPages client repo) 0 of
        Panics x \<Rightarrow> Panics x
      | Returns (imageCount, listOfImagesErr) \<Rightarrow>
          if listOfImagesErr \<noteq> None
          then Returns (None, Some (Wrapf ErrFailedToGetUsage listOfImagesErr))
          else imagesLoop client repos
                 (quotaUsages @ [newQuotaUsage imagesPerRepositoryName repo
                                   imagesPerRepositoryDescription (real_of_int imageCount) None]))"

definition ImagesPerRepositoryCheck :: "ECRAPI \<Rightarrow> UsageCheck" where
  "ImagesPerRepositoryCheck client =
     (case eachPage (onPage (\<lambda>repositories listOfRepositories. listOfRepositories @ repositories))
             (DescribeRepositoriesPages client) [] of
        Panics x \<Rightarrow> Panics x
      | Returns (listOfRepositories, listOfRepositoriesErr) \<Rightarrow>
          if listOfRepositoriesErr \<noteq> None
          then Returns (None, Some (Wrapf ErrFailedToGetUsage listOfRepositoriesErr))
          else imagesLoop client listOfRepositories [])"

record CloudWatchLogsAPI =
  DescribeLogGroupsPages :: "string list option paged"

definition LogGroupsPerRegionCheck :: "CloudWatchLogsAPI \<Rightarrow> UsageCheck" where
  "LogGroupsPerRegionCheck client =
     usageOrError (eachPage (onPage countPage) (DescribeLogGroupsPages client) 0)
       (\<lambda>totalLogGroupsCount.
          [newQuotaUsage logGroupsPerRegionName None logGroupsPerRegionDescription
             (real_of_int totalLogGroupsCount) None])"

record SendQuota =
  SentLast24Hours :: real
  Max24HourSend :: real

record SESV2API =
  GetAccount :: "error + SendQuota"

definition MaxSendIn24HoursCheck :: "SESV2API \<Rightarrow> UsageCheck" where
  "MaxSendIn24HoursCheck client =
     (case GetAccount client of
        Inl err \<Rightarrow> Returns (None, Some (Wrapf ErrFailedToGetUsage (Some err)))
      | Inr response \<Rightarrow>
          Returns (Some [\<lparr>Name = maxSendIn24HoursName, ResourceName = None,
                          Description = maxSendIn24HoursDescription,
                          Usage = SentLast24Hours response, Quota = Max24HourSend response,
                          Tags = None\<rparr>], None))"

record RedshiftAPI =
  DescribeClusterSnapshotsPages :: "string \<Rightarrow> string list option paged"

definition UserSnapshotsPerRegionCheck :: "RedshiftAPI \<Rightarrow> UsageCheck" where
  "UserSnapshotsPerRegionCheck client =
     usageOrError (eachPage (onPage countPage) (DescribeClusterSnapshotsPages client ''manual'') 0)
       (\<lambda>userSnapshotsCount.
          [newQuotaUsage userSnapshotsPerRegionName None userSnapshotsPerRegionDescription
             (real_of_int userSnapshotsCount) None])"

section \<open>Kinesis Data Analytics usage checks\<close>

abbreviation flinkKPUsPerAppName :: string where
  "flinkKPUsPerAppName \<equiv> ''kpus_per_flink_app''"
abbreviation flinkKPUsPerAppDescription :: string where
  "flinkKPUsPerAppDescription \<equiv> ''KPUs per flink app''"
abbreviation appsPerRegionName :: string where
  "appsPerRegionName \<equiv> ''apps_per_region''"
abbreviation appsPerRegionDescription :: string where
  "appsPerRegionDescription \<equiv> ''apps per region''"

text \<open>
  These two checks page by hand: they call \<open>ListApplications\<close>, and again with the
  \<open>NextToken\<close> of the answer as long as it is not nil. The answers to that sequence of
  requests are a \<^typ>\<open>'p paged\<close>: \<open>MorePages\<close> is an answer with a token. An application
  summary is its \<open>ApplicationName\<close>; of the detail, the name and \<open>CurrentParallelism\<close> are
  read.
\<close>

record ApplicationDetail =
  ApplicationName :: "string option"
  CurrentParallelism :: int

record KinesisAnalyticsV2API =
  ListApplications :: "string option list paged"
  DescribeApplication :: "string option \<Rightarrow> error + ApplicationDetail"

fun describeLoop :: "KinesisAnalyticsV2API \<Rightarrow> string option list \<Rightarrow> QuotaUsage list \<Rightarrow> QuotaUsage list + error" where
  "describeLoop client [] quotaUsages = Inl quotaUsages"
| "describeLoop client (app # apps) quotaUsages =
     (case DescribeApplication client app of
        Inl err \<Rightarrow> Inr (Wrapf ErrFailedToGetUsage (Some err))
      | Inr response \<Rightarrow>
          describeLoop client apps
            (quotaUsages @ [newQuotaUsage flinkKPUsPerAppName (ApplicationName response)
                              flinkKPUsPerAppDescription
                              (real_of_int (add64 (CurrentParallelism response) 1)) None]))"

fun appKPULoop :: "KinesisAnalyticsV2API \<Rightarrow> string option list paged \<Rightarrow> QuotaUsage list \<Rightarrow> usage_result" where
  "appKPULoop client (Failed err) quotaUsages = (None, Some (Wrapf ErrFailedToGetUsage (Some err)))"
| "appKPULoop client (LastPage apps) quotaUsages =
     (case describeLoop client apps quotaUsages of
        Inr e \<Rightarrow> (None, Some e)
      | Inl quotaUsages' \<Rightarrow> (Some quotaUsages', None))"
| "appKPULoop client (MorePages apps rest) quotaUsages =
     (case describeLoop client apps quotaUsages of
        Inr e \<Rightarrow> (None, Some e)
      | Inl quotaUsages' \<Rightarrow> appKPULoop client rest quotaUsages')"

definition AppKPUUsageCheck :: "KinesisAnalyticsV2API \<Rightarrow> UsageCheck" where
  "AppKPUUsageCheck client = Returns (appKPULoop client (ListApplications client) [])"

fun appsLoop :: "string option list paged \<Rightarrow> int \<Rightarrow> usage_result" where
  "appsLoop (Failed err) totalAppsCount = (None, Some (Wrapf ErrFailedToGetUsage (Some err)))"
| "appsLoop (LastPage apps) totalAppsCount =
     (Some [newQuotaUsage appsPerRegionName None appsPerRegionDescription
              (real_of_int (add64 totalAppsCount (len apps))) None], None)"
| "appsLoop (MorePages apps rest) totalAppsCount =
     appsLoop rest (add64 totalAppsCount (len apps))"

definition AppsPerRegionCheck :: "KinesisAnalyticsV2API \<Rightarrow> UsageCheck" where
  "AppsPerRegionCheck client = Returns (appsLoop (ListApplications client) 0)"

section \<open>Glue usage checks\<close>

abbreviation jobsPerTriggerName :: string where
  "jobsPerTriggerName \<equiv> ''glue_jobs_per_trigger''"
abbreviation jobsPerTriggerDescription :: string where
  "jobsPerTriggerDescription \<equiv> ''glue jobs per trigger''"
abbreviation jobsName :: string where
  "jobsName \<equiv> ''glue_jobs_per_account''"
abbreviation jobsDescription :: string where
  "jobsDescription \<equiv> ''glue jobs per account''"
abbreviation concurrentRunsPerJobName :: string where
  "concurrentRunsPerJobName \<equiv> ''concurrent_runs_per_glue_job''"
abbreviation concurrentRunsPerJobDescription :: string where
  "concurrentRunsPerJobDescription \<equiv> ''concurrent runs per glue job''"
abbreviation dPUsName :: string where
  "dPUsName \<equiv> ''dpus_per_account''"
abbreviation dPUsDescription :: string where
  "dPUsDescription \<equiv> ''DPUs per account''"
abbreviation concurrentRunsName :: string where
  "concurrentRunsName \<equiv> ''concurrent_running_glue_jobs''"
abbreviation concurrentRunsDescription :: string where
  "concurrentRunsDescription \<equiv> ''concurrent running glue jobs''"
abbreviation JobRunStateRunning :: string where
  "JobRunStateRunning \<equiv> ''RUNNING''"

text \<open>
  A trigger is its name and the \<open>JobName\<close> of each of its actions; of a job the name,
  \<open>ExecutionProperty.MaxConcurrentRuns\<close> and \<open>MaxCapacity\<close> are read. A job run, as the
  provider sends it, is its \<open>JobRunState\<close> string, if present.
\<close>

record Trigger =
  TriggerName :: "string option"
  Actions :: "string list"

record Job =
  JobName :: "string option"
  MaxConcurrentRuns :: int
  MaxCapacity :: real

record GlueAPI =
  ListTriggersPages :: "string option list option paged"
  BatchGetTriggers :: "string option list \<Rightarrow> error + Trigger list"
  ListJobsPages :: "string option list option paged"
  GetJobsPages :: "Job list option paged"
  GetJobRunsPages :: "string option \<Rightarrow> string option list option paged"

definition triggerUsage :: "Trigger \<Rightarrow> QuotaUsage" where
  "triggerUsage trigger =
     (let jobsTriggered = totalOf (\<lambda>jobName. if jobName \<noteq> '''' then 1 else 0) (Actions trigger) 0
      in newQuotaUsage jobsPerTriggerName (TriggerName trigger) jobsPerTriggerDescription
           (real_of_int jobsTriggered) None)"

text \<open>
  When \<open>BatchGetTriggers\<close> fails, the error returned wraps the sentinel and formats
  \<open>listErr\<close>, which is nil at that point.
\<close>

definition JobsPerTriggerCheck :: "GlueAPI \<Rightarrow> UsageCheck" where
  "JobsPerTriggerCheck client =
     (case eachPage (onPage (\<lambda>triggerNames triggersList. triggersList @ triggerNames))
             (ListTriggersPages client) [] of
        Panics x \<Rightarrow> Panics x
      | Returns (triggersList, listErr) \<Rightarrow>
          if listErr \<noteq> None then Returns (None, Some (Wrapf ErrFailedToGetUsage listErr))
          else (case BatchGetTriggers client triggersList of
                  Inl err \<Rightarrow> Returns (None, Some (Wrapf ErrFailedToGetUsage listErr))
                | Inr triggers \<Rightarrow> Returns (Some (map triggerUsage triggers), None)))"

definition JobsPerAccountCheck :: "GlueAPI \<Rightarrow> UsageCheck" where
  "JobsPerAccountCheck client =
     usageOrError (eachPage (onPage countPage) (ListJobsPages client) 0)
       (\<lambda>jobsCount. [newQuotaUsage jobsName None jobsDescription (real_of_int jobsCount) None])"

definition jobUsage :: "Job \<Rightarrow> QuotaUsage" where
  "jobUsage job =
     newQuotaUsage concurrentRunsPerJobName (JobName job) concurrentRunsPerJobDescription
       (real_of_int (MaxConcurrentRuns job)) None"

definition ConcurrentRunsPerJobCheck :: "GlueAPI \<Rightarrow> UsageCheck" where
  "ConcurrentRunsPerJobCheck client =
     usageOrError
       (eachPage (onPage (\<lambda>jobs quotaUsages. quotaUsages @ map jobUsage jobs))
          (GetJobsPages client) [])
       (\<lambda>quotaUsages. quotaUsages)"

definition DPUsCheck :: "GlueAPI \<Rightarrow> UsageCheck" where
  "DPUsCheck client =
     usageOrError
       (eachPage (onPage (totalOf (\<lambda>job. truncToInt (MaxCapacity job)))) (GetJobsPages client) 0)
       (\<lambda>dPUsCount. [newQuotaUsage dPUsName None dPUsDescription (real_of_int dPUsCount) None])"

text \<open>
  \<open>ConcurrentRunsCheck\<close> compares pointers:
  \<^verbatim>\<open>run.JobRunState == aws.String(glue.JobRunStateRunning)\<close>. Strings that are reached
  through pointers live in a store; an address is an index into it. \<^verbatim>\<open>aws.String(v)\<close>
  allocates a new cell holding \<open>v\<close> and returns its address. The SDK, when it decodes a
  page of job runs, allocates the state string of each run that has one; the callback then
  sees the runs with these addresses.
\<close>

type_synonym addr = nat

type_synonym store = "string list"

definition aws_String :: "string \<Rightarrow> store \<Rightarrow> addr \<times> store" where
  "aws_String v h = (length h, h @ [v])"

record JobRun =
  JobRunState :: "addr option"

fun decodeJobRuns :: "string option list \<Rightarrow> store \<Rightarrow> JobRun list \<times> store" where
  "decodeJobRuns [] h = ([], h)"
| "decodeJobRuns (None # states) h =
     (case decodeJobRuns states h of (runs, h') \<Rightarrow> (\<lparr>JobRunState = None\<rparr> # runs, h'))"
| "decodeJobRuns (Some v # states) h =
     (case aws_String v h of (a, h1) \<Rightarrow>
        (case decodeJobRuns states h1 of (runs, h') \<Rightarrow> (\<lparr>JobRunState = Some a\<rparr> # runs, h')))"

fun runsLoop :: "JobRun list \<Rightarrow> int \<times> store \<Rightarrow> int \<times> store" where
  "runsLoop [] st = st"
| "runsLoop (run # runs) (concurrentJobsCount, h) =
     (case aws_String JobRunStateRunning h of (a, h') \<Rightarrow>
        if JobRunState run = Some a then runsLoop runs (add64 concurrentJobsCount 1, h')
        else runsLoop runs (concurrentJobsCount, h'))"

definition runsPage :: "string option list \<Rightarrow> int \<times> store \<Rightarrow> int \<times> store" where
  "runsPage states st =
     (case st of (concurrentJobsCount, h) \<Rightarrow>
        (case decodeJobRuns states h of (runs, h') \<Rightarrow> runsLoop runs (concurrentJobsCount, h')))"

fun jobRunsLoop :: "GlueAPI \<Rightarrow> string option list \<Rightarrow> int \<times> store \<Rightarrow> (int \<times> store) outcome" where
  "jobRunsLoop client [] st = Returns st"
| "jobRunsLoop client (job # jobs) st =
     (case eachPage (onPage runsPage) (GetJobRunsPages client job) st of
        Panics x \<Rightarrow> Panics x
      | Returns (st', err) \<Rightarrow>
          (case err of
             Some e \<Rightarrow> Panics (PanicError e)
           | None \<Rightarrow> jobRunsLoop client jobs st'))"

definition jobsCallback :: "GlueAPI \<Rightarrow> string option list option \<Rightarrow> bool \<Rightarrow> int \<times> store \<Rightarrow> (bool \<times> int \<times> store) outcome" where
  "jobsCallback client page lastPage st =
     (case page of
        None \<Rightarrow> Returns (\<not> lastPage, st)
      | Some jobNames \<Rightarrow>
          (case jobRunsLoop client jobNames st of
             Panics x \<Rightarrow> Panics x
           | Returns st' \<Rightarrow> Returns (\<not> lastPage, st')))"

definition ConcurrentRunsCheck :: "GlueAPI \<Rightarrow> store \<Rightarrow> UsageCheck" where
  "ConcurrentRunsCheck client h =
     usageOrError (eachPage (jobsCallback client) (ListJobsPages client) (0, h))
       (\<lambda>(concurrentJobsCount, h').
          [newQuotaUsage concurrentRunsName None concurrentRunsDescription
             (real_of_int concurrentJobsCount) None])"

section \<open>The registry (newUsageChecks) and the construction of the aggregator\<close>

text \<open>
  The clients of the provider's services. \<open>ASGUsageCheck\<close> is defined in the
  autoscaling file of the package, which is not covered here: what its \<open>Usage()\<close> yields
  is a parameter (\<open>asgUsage\<close>). \<open>store\<close> is the store in which the checks allocate.
\<close>

record clients =
  ec2Client :: EC2API
  asgUsage :: UsageCheck
  rdsClient :: RDSAPI
  ecrClient :: ECRAPI
  sesv2Client :: SESV2API
  logsClient :: CloudWatchLogsAPI
  kdaClient :: KinesisAnalyticsV2API
  rsClient :: RedshiftAPI
  glueClient :: GlueAPI
  store :: store

definition serviceQuotasUsageCheckList :: "clients \<Rightarrow> (string \<times> UsageCheck) list" where
  "serviceQuotasUsageCheckList c =
     [(''L-0EA8095F'', RulesPerSecurityGroupUsageCheck (ec2Client c)),
      (''L-2AFB9258'', SecurityGroupsPerENIUsageCheck (ec2Client c)),
      (''L-E79EC296'', SecurityGroupsPerRegionUsageCheck (ec2Client c)),
      (''L-34B43A08'', StandardSpotInstanceRequestsUsageCheck (ec2Client c)),
      (''L-1216C47A'', RunningOnDemandStandardInstancesUsageCheck (ec2Client c)),
      (''L-5BC124EF'', ReadReplicasPerMasterCheck (rdsClient c)),
      (''L-DF5E4CA3'', ENIsPerRegionCheck (ec2Client c)),
      (''L-C7B9AAAB'', LogGroupsPerRegionCheck (logsClient c)),
      (''L-7A658B76'', MaxGP3StoragePerRegionCheck (ec2Client c)),
      (''L-D18FCD1D'', MaxGP2StoragePerRegionCheck (ec2Client c)),
      (''L-FD252861'', MaxIo1StoragePerRegionCheck (ec2Client c)),
      (''L-09BD8365'', MaxIo2StoragePerRegionCheck (ec2Client c)),
      (''L-82ACEF56'', MaxSt1StoragePerRegionCheck (ec2Client c)),
      (''L-9CF3C2EB'', MaxStandardStoragePerRegionCheck (ec2Client c)),
      (''L-17AF77E8'', MaxSc1StoragePerRegionCheck (ec2Client c)),
      (''L-309BACF6'', EbsSnapshotsPerRegionCheck (ec2Client c)),
      (''L-8D977E7E'', MaxIo2IopsPerRegionCheck (ec2Client c)),
      (''L-B3A130E6'', MaxIo1IopsPerRegionCheck (ec2Client c)),
      (''L-EEC98450'', JobsPerTriggerCheck (glueClient c)),
      (''L-611FDDE4'', JobsPerAccountCheck (glueClient c)),
      (''L-F574AED9'', ConcurrentRunsPerJobCheck (glueClient c)),
      (''L-08F3B322'', DPUsCheck (glueClient c)),
      (''L-5E4153CA'', ConcurrentRunsCheck (glueClient c) (store c))]"

definition serviceDefaultUsageCheckList :: "clients \<Rightarrow> (string \<times> UsageCheck) list" where
  "serviceDefaultUsageCheckList c =
     [(''L-CFEB8E8D'', RepositoriesPerRegionCheck (ecrClient c)),
      (''L-03A36CE1'', ImagesPerRepositoryCheck (ecrClient c)),
      (''L-3A88E041'', AppKPUUsageCheck (kdaClient c)),
      (''L-3729A2EF'', AppsPerRegionCheck (kdaClient c)),
      (''L-2E428669'', UserSnapshotsPerRegionCheck (rsClient c))]"

definition newUsageChecks :: "clients \<Rightarrow> (string \<rightharpoonup> UsageCheck) \<times> (string \<rightharpoonup> UsageCheck) \<times> UsageCheck list" where
  "newUsageChecks c =
     (map_of (serviceQuotasUsageCheckList c),
      map_of (serviceDefaultUsageCheckList c),
      [AvailableIpsPerSubnetUsageCheck (ec2Client c), asgUsage c,
       MaxSendIn24HoursCheck (sesv2Client c)])"

text \<open>
  \<open>isValidRegion\<close> looks the region up in the SDK's partitions, given here as the list of
  their identifiers and regions; the second result says whether the partition is
  \<^verbatim>\<open>endpoints.AwsCnPartitionID\<close>.
\<close>

abbreviation AwsCnPartitionID :: string where
  "AwsCnPartitionID \<equiv> ''aws-cn''"

fun isValidRegion :: "(string \<times> string list) list \<Rightarrow> string \<Rightarrow> bool \<times> bool" where
  "isValidRegion [] reg = (False, False)"
| "isValidRegion ((partitionID, regions) # partitions) reg =
     (if reg \<in> set regions then (True, partitionID = AwsCnPartitionID)
      else isValidRegion partitions reg)"

text \<open>
  \<open>NewServiceQuotas\<close>, given the partitions, the outcome of creating the session (its
  error, if any) and the clients made from the session.
\<close>

definition NewServiceQuotas :: "(string \<times> string list) list \<Rightarrow> error option \<Rightarrow> ServiceQuotasAPI \<Rightarrow> clients
    \<Rightarrow> string \<Rightarrow> ServiceQuotas option \<times> error option" where
  "NewServiceQuotas partitions sessionErr quotasClient c reg =
     (case isValidRegion partitions reg of (validRegion, isChina) \<Rightarrow>
        if \<not> validRegion then (None, Some (Wrapf ErrInvalidRegion None))
        else if sessionErr \<noteq> None then (None, sessionErr)
        else (case newUsageChecks c of (serviceQuotasChecks, serviceDefaultChecks, otherChecks) \<Rightarrow>
                (Some \<lparr>region = reg, isAwsChina = isChina, quotasService = quotasClient,
                       serviceQuotasUsageChecks = serviceQuotasChecks,
                       serviceDefaultUsageChecks = serviceDefaultChecks,
                       otherUsageChecks = otherChecks\<rparr>, None)))"

section \<open>Notions used in the statements\<close>

text \<open>The record \<open>AvailableIpsPerSubnetUsageCheck\<close> builds for a subnet whose prefix length converts.\<close>

definition subnetInfo :: "Subnet \<Rightarrow> QuotaUsage" where
  "subnetInfo subnet =
     (let maxNumOfIPs = 2 powr (32 - real_of_int (fst (Atoi (drop (length (CidrBlock subnet) - 2) (CidrBlock subnet)))))
      in \<lparr>Name = availableIPsPerSubnetName, ResourceName = SubnetId subnet,
          Description = availableIPsPerSubnetDesc,
          Usage = maxNumOfIPs - real_of_int (AvailableIpAddressCount subnet),
          Quota = maxNumOfIPs, Tags = ec2TagsToQuotaUsageTags (SubnetTags subnet)\<rparr>)"

text \<open>A job run whose state pointer, if not nil, is an address of the store.\<close>

definition allocated :: "store \<Rightarrow> JobRun \<Rightarrow> bool" where
  "allocated h run = (case JobRunState run of None \<Rightarrow> True | Some a \<Rightarrow> a < length h)"

text \<open>Clients of an account without resources, from which the examples are built.\<close>

definition noEC2 :: EC2API where
  "noEC2 = \<lparr>DescribeSecurityGroupsPages = LastPage (Some []),
            DescribeNetworkInterfacesPages = LastPage (Some []),
            DescribeInstancesPages = (\<lambda>filters. LastPage (Some [])),
            DescribeSubnetsPages = LastPage (Some []),
            DescribeVolumesPages = (\<lambda>filters. LastPage (Some [])),
            DescribeSnapshotsPages = LastPage (Some [])\<rparr>"

definition noGlue :: GlueAPI where
  "noGlue = \<lparr>ListTriggersPages = LastPage (Some []),
             BatchGetTriggers = (\<lambda>triggerNames. Inr []),
             ListJobsPages = LastPage (Some []),
             GetJobsPages = LastPage (Some []),
             GetJobRunsPages = (\<lambda>job. LastPage (Some []))\<rparr>"

definition noECR :: ECRAPI where
  "noECR = \<lparr>DescribeRepositoriesPages = LastPage (Some []),
            ListImagesPages = (\<lambda>repo. LastPage (Some []))\<rparr>"

text \<open>A subnet \<open>10.0.0.0/8\<close>, and a subnet \<open>10.0.1.0/24\<close> with 200 free addresses.\<close>

definition subnet8 :: Subnet where
  "subnet8 = \<lparr>SubnetId = Some ''subnet-1'', CidrBlock = ''10.0.0.0/8'',
               AvailableIpAddressCount = 100, SubnetTags = []\<rparr>"

definition subnet24 :: Subnet where
  "subnet24 = \<lparr>SubnetId = Some ''subnet-2'', CidrBlock = ''10.0.1.0/24'',
                AvailableIpAddressCount = 200, SubnetTags = []\<rparr>"

text \<open>
  Glue with one job: with a running and a finished run; and with \<open>GetJobRuns\<close> throttled.
\<close>

definition glueRunning :: GlueAPI where
  "glueRunning = noGlue\<lparr>ListJobsPages := LastPage (Some [Some ''etl'']),
                         GetJobRunsPages := (\<lambda>job. LastPage (Some [Some ''RUNNING'', Some ''SUCCEEDED'']))\<rparr>"

definition glueThrottled :: GlueAPI where
  "glueThrottled = noGlue\<lparr>ListJobsPages := LastPage (Some [Some ''etl'']),
                           GetJobRunsPages := (\<lambda>job. Failed (ApiError ''ThrottlingException''))\<rparr>"

text \<open>ECR answering \<open>DescribeRepositories\<close> in two pages of one repository each.\<close>

definition ecrTwoPages :: ECRAPI where
  "ecrTwoPages = noECR\<lparr>DescribeRepositoriesPages :=
                          MorePages (Some [Some ''app'']) (LastPage (Some [Some ''web'']))\<rparr>"

text \<open>A call of \<open>Usage()\<close> that returned a nil error.\<close>

definition succeeds :: "UsageCheck \<Rightarrow> bool" where
  "succeeds check = (case check of Returns (quotaUsages, None) \<Rightarrow> True | _ \<Rightarrow> False)"

text \<open>The records of a call that returned a nil error.\<close>

definition checkRecords :: "UsageCheck \<Rightarrow> QuotaUsage list" where
  "checkRecords check = (case check of Returns (quotaUsages, None) \<Rightarrow> elems quotaUsages | _ \<Rightarrow> [])"

text \<open>The records a quota of the catalog contributes when its check succeeds: those of the check, with the quota's value.\<close>

definition quotaRecords :: "(string \<rightharpoonup> UsageCheck) \<Rightarrow> ServiceQuota \<Rightarrow> QuotaUsage list" where
  "quotaRecords checks quota =
     (case checks (QuotaCode quota) of
        None \<Rightarrow> []
      | Some check \<Rightarrow> map (\<lambda>quotaUsage. quotaUsage\<lparr>Quota := Value quota\<rparr>) (checkRecords check))"

text \<open>The checks registered for the quotas of a list, in order.\<close>

definition candidates :: "(string \<rightharpoonup> UsageCheck) \<Rightarrow> ServiceQuota list \<Rightarrow> UsageCheck list" where
  "candidates checks quotas = List.map_filter (\<lambda>quota. checks (QuotaCode quota)) quotas"

text \<open>The walks and checks of one refresh, in the order in which \<open>QuotasAndUsage\<close> runs them.\<close>

definition refreshSteps :: "ServiceQuotas \<Rightarrow> usage_result outcome list" where
  "refreshSteps s =
     (if isAwsChina s then []
      else map (quotasForService s) allServices @ map (defaultsForService s) allServices)
     @ otherUsageChecks s"

text \<open>A walk of the catalog fails when the enumeration fails or a check registered for a listed quota does not succeed.\<close>

definition walkFails :: "(string \<rightharpoonup> UsageCheck) \<Rightarrow> ServiceQuota list option paged \<Rightarrow> bool" where
  "walkFails checks pages =
     (pagedError pages \<noteq> None \<or> (\<exists>c\<in>set (candidates checks (pagedItems pages)). \<not> succeeds c))"

text \<open>The records in the slice a call returned, whatever the error.\<close>

definition returnedRecords :: "UsageCheck \<Rightarrow> QuotaUsage list" where
  "returnedRecords check = (case check of Returns (quotaUsages, err) \<Rightarrow> elems quotaUsages | Panics x \<Rightarrow> [])"

text \<open>A record whose \<open>Quota\<close> is zero and whose name is one of the given ones.\<close>

definition unset :: "string list \<Rightarrow> QuotaUsage \<Rightarrow> bool" where
  "unset names r = (Quota r = 0 \<and> Name r \<in> set names)"

text \<open>The names that the check registered for each quota code gives to its records (the name constants of the checks).\<close>

definition registeredNames :: "(string \<times> string list) list" where
  "registeredNames =
     [(''L-0EA8095F'', [inboundRulesPerSecGrpName, outboundRulesPerSecGrpName]),
      (''L-2AFB9258'', [secGroupsPerENIName]),
      (''L-E79EC296'', [securityGroupsPerRegionName]),
      (''L-34B43A08'', [spotInstanceRequestsName]),
      (''L-1216C47A'', [onDemandInstanceRequestsName]),
      (''L-5BC124EF'', [numReadReplicasPerMasterName]),
      (''L-DF5E4CA3'', [eNIsPerRegionName]),
      (''L-C7B9AAAB'', [logGroupsPerRegionName]),
      (''L-7A658B76'', [maxGp3StoragePerRegionName]),
      (''L-D18FCD1D'', [maxGp2StoragePerRegionName]),
      (''L-FD252861'', [maxIo1StoragePerRegionName]),
      (''L-09BD8365'', [maxIo2StoragePerRegionName]),
      (''L-82ACEF56'', [maxSt1StoragePerRegionName]),
      (''L-9CF3C2EB'', [maxStandardStoragePerRegionName]),
      (''L-17AF77E8'', [maxSc1StoragePerRegionName]),
      (''L-309BACF6'', [ebsSnapshotsPerRegionName]),
      (''L-8D977E7E'', [maxIo2IopsPerRegionName]),
      (''L-B3A130E6'', [maxIo1IopsPerRegionName]),
      (''L-EEC98450'', [jobsPerTriggerName]),
      (''L-611FDDE4'', [jobsName]),
      (''L-F574AED9'', [concurrentRunsPerJobName]),
      (''L-08F3B322'', [dPUsName]),
      (''L-5E4153CA'', [concurrentRunsName]),
      (''L-CFEB8E8D'', [repositoriesPerRegionName]),
      (''L-03A36CE1'', [imagesPerRepositoryName]),
      (''L-3A88E041'', [flinkKPUsPerAppName]),
      (''L-3729A2EF'', [appsPerRegionName]),
      (''L-2E428669'', [userSnapshotsPerRegionName])]"

definition declaredNames :: "string \<Rightarrow> string list" where
  "declaredNames code = (case map_of registeredNames code of None \<Rightarrow> [] | Some names \<Rightarrow> names)"

text \<open>Clients of an account with no resources at all, and a sending quota of 200 of which 10 are used.\<close>

definition noClients :: clients where
  "noClients =
     \<lparr>ec2Client = noEC2,
      asgUsage = Returns (Some [], None),
      rdsClient = \<lparr>DescribeDBClustersPages = LastPage (Some [])\<rparr>,
      ecrClient = noECR,
      sesv2Client = \<lparr>GetAccount = Inr \<lparr>SentLast24Hours = 10, Max24HourSend = 200\<rparr>\<rparr>,
      logsClient = \<lparr>DescribeLogGroupsPages = LastPage (Some [])\<rparr>,
      kdaClient = \<lparr>ListApplications = LastPage [], DescribeApplication = (\<lambda>app. Inl (ApiError ''ResourceNotFoundException''))\<rparr>,
      rsClient = \<lparr>DescribeClusterSnapshotsPages = (\<lambda>snapshotType. LastPage (Some []))\<rparr>,
      glueClient = noGlue,
      store = []\<rparr>"

text \<open>A catalog that lists one quota for each of \<open>vpc\<close>, \<open>logs\<close> and \<open>glue\<close>.\<close>

definition exampleQuotas :: ServiceQuotasAPI where
  "exampleQuotas =
     \<lparr>ListServiceQuotasPages =
        (\<lambda>service. if service = ''vpc'' then LastPage (Some [\<lparr>QuotaCode = ''L-0EA8095F'', Value = 60\<rparr>])
                    else if service = ''logs'' then LastPage (Some [\<lparr>QuotaCode = ''L-C7B9AAAB'', Value = 1000000\<rparr>])
                    else if service = ''glue'' then LastPage (Some [\<lparr>QuotaCode = ''L-5E4153CA'', Value = 50\<rparr>])
                    else LastPage (Some [])),
      ListAWSDefaultServiceQuotasPages = (\<lambda>service. LastPage (Some []))\<rparr>"

text \<open>Two partitions.\<close>

definition examplePartitions :: "(string \<times> string list) list" where
  "examplePartitions = [(''aws'', [''us-east-1'', ''eu-west-1'']), (''aws-cn'', [''cn-north-1''])]"

text \<open>The record of the SES check for \<open>noClients\<close>.\<close>

definition sesRecord :: QuotaUsage where
  "sesRecord = \<lparr>Name = maxSendIn24HoursName, ResourceName = None,
                 Description = maxSendIn24HoursDescription, Usage = 10, Quota = 200, Tags = None\<rparr>"

text \<open>The aggregator that \<open>NewServiceQuotas\<close> builds for the example catalog and partitions.\<close>

definition exampleRefresh :: "clients \<Rightarrow> string \<Rightarrow> ServiceQuotas" where
  "exampleRefresh c reg =
     \<lparr>region = reg, isAwsChina = snd (isValidRegion examplePartitions reg),
      quotasService = exampleQuotas,
      serviceQuotasUsageChecks = fst (newUsageChecks c),
      serviceDefaultUsageChecks = fst (snd (newUsageChecks c)),
      otherUsageChecks = snd (snd (newUsageChecks c))\<rparr>"

text \<open>
  The clients of the account without resources, with one subnet \<open>10.0.1.0/24\<close>; and
  with \<open>GetJobRuns\<close> throttled.
\<close>

definition subnetClients :: clients where
  "subnetClients = noClients\<lparr>ec2Client := noEC2\<lparr>DescribeSubnetsPages := LastPage (Some [subnet24])\<rparr>\<rparr>"

definition throttledClients :: clients where
  "throttledClients = noClients\<lparr>glueClient := glueThrottled\<rparr>"

text \<open>
  The records a successful refresh is expected to return: for every walked service and every
  quota its catalog lists, the records of the check registered for the quota's code, each
  with \<open>Quota\<close> replaced by the catalog's value and nothing else changed (first the
  service-specific catalog with the service-specific registry, then the default catalog with
  the default registry; none in a region without catalog), followed by the records of the
  checks without a formal quota, as they are.
\<close>

definition walkRecords :: "(string \<rightharpoonup> UsageCheck) \<Rightarrow> (string \<Rightarrow> ServiceQuota list option paged) \<Rightarrow> QuotaUsage list" where
  "walkRecords checks listing =
     concat (map (\<lambda>service. concat (map (quotaRecords checks) (pagedItems (listing service)))) allServices)"

definition refreshRecords :: "ServiceQuotas \<Rightarrow> QuotaUsage list" where
  "refreshRecords s =
     (if isAwsChina s then []
      else walkRecords (serviceQuotasUsageChecks s) (ListServiceQuotasPages (quotasService s))
           @ walkRecords (serviceDefaultUsageChecks s) (ListAWSDefaultServiceQuotasPages (quotasService s)))
     @ concat (map checkRecords (otherUsageChecks s))"

text \<open>
  The example catalog, with the default quota \<open>L-CFEB8E8D\<close> listed for \<open>ecr\<close>,
  and the aggregator for it.
\<close>

definition defaultQuotas :: ServiceQuotasAPI where
  "defaultQuotas =
     exampleQuotas\<lparr>ListAWSDefaultServiceQuotasPages :=
        (\<lambda>service. if service = ''ecr'' then LastPage (Some [\<lparr>QuotaCode = ''L-CFEB8E8D'', Value = 10000\<rparr>])
                    else LastPage (Some []))\<rparr>"

definition defaultRefresh :: ServiceQuotas where
  "defaultRefresh = (exampleRefresh noClients ''eu-west-1'')\<lparr>quotasService := defaultQuotas\<rparr>"

section \<open>Properties of the normalisation\<close>

lemma toLower_upper: "isUpper c \<Longrightarrow> isLowerOrDigit (toLowerChar c)"
  unfolding isUpper_def upperChars_def
  by (elim disjE | simp only: set_simps insert_iff empty_iff)+
     (simp_all add: toLowerChar_def upperChars_def lowerChars_def isLowerOrDigit_def)

lemma toLower_not_upper: "\<not> isUpper c \<Longrightarrow> toLowerChar c = c"
proof -
  assume "\<not> isUpper c"
  then have "c \<notin> set upperChars" by (simp add: isUpper_def)
  then have "c \<notin> fst ` set (zip upperChars lowerChars)"
    by (simp add: upperChars_def lowerChars_def)
  then have "map_of (zip upperChars lowerChars) c = None"
    by (simp only: map_of_eq_None_iff not_False_eq_True)
  then show ?thesis by (simp add: toLowerChar_def)
qed

lemma final_not_upper: "finalChar c \<Longrightarrow> \<not> isUpper c"
  unfolding finalChar_def isLowerOrDigit_def isUpper_def upperChars_def lowerChars_def digitChars_def
  by auto

lemma final_label: "finalChar c \<Longrightarrow> isLabelChar c"
  by (auto simp: finalChar_def isLabelChar_def)

lemma toLower_final: "isLabelChar c \<Longrightarrow> finalChar (toLowerChar c)"
  by (cases "isUpper c") (auto simp: toLower_upper toLower_not_upper finalChar_def isLabelChar_def)

lemma replaceInvalid_label: "c \<in> set (replaceInvalid s) \<Longrightarrow> isLabelChar c"
  by (induction s arbitrary: c rule: replaceInvalid.induct)
     (auto simp: isLabelChar_def split: if_splits)

lemma insertUnderscores_label:
  "\<forall>c\<in>set s. isLabelChar c \<Longrightarrow> c \<in> set (insertUnderscores s) \<Longrightarrow> isLabelChar c"
  by (induction s arbitrary: c rule: insertUnderscores.induct)
     (auto simp: isLabelChar_def split: if_splits)

lemma ToPrometheusNamingFormat_final:
  "c \<in> set (ToPrometheusNamingFormat s) \<Longrightarrow> finalChar c"
  unfolding ToPrometheusNamingFormat_def toSnakeCase_def
  using replaceInvalid_label insertUnderscores_label toLower_final by fastforce

lemma replaceInvalid_id: "\<forall>c\<in>set s. isLabelChar c \<Longrightarrow> replaceInvalid s = s"
  by (induction s) auto

lemma insertUnderscores_id: "\<forall>c\<in>set s. \<not> isUpper c \<Longrightarrow> insertUnderscores s = s"
  by (induction s rule: insertUnderscores.induct) auto

lemma ToPrometheusNamingFormat_fixed:
  assumes "\<forall>c\<in>set s. finalChar c"
  shows "ToPrometheusNamingFormat s = s"
proof -
  have 1: "replaceInvalid s = s" using assms by (simp add: replaceInvalid_id final_label)
  have 2: "insertUnderscores s = s" using assms by (simp add: insertUnderscores_id final_not_upper)
  have 3: "map toLowerChar s = s" using assms by (simp add: map_idI toLower_not_upper final_not_upper)
  show ?thesis by (simp add: ToPrometheusNamingFormat_def toSnakeCase_def 1 2 3)
qed

text \<open>
  C8. \<open>ToPrometheusNamingFormat\<close> is idempotent: for every string, applying it twice gives
  what applying it once gives; it maps \<open>SecurityGroupID\<close> to \<open>security_group_id\<close> and
  \<open>eth0\<close> to \<open>eth0\<close>.
\<close>

theorem ToPrometheusNamingFormat_idempotent:
  "ToPrometheusNamingFormat (ToPrometheusNamingFormat s) = ToPrometheusNamingFormat s
   \<and> ToPrometheusNamingFormat ''SecurityGroupID'' = ''security_group_id''
   \<and> ToPrometheusNamingFormat ''eth0'' = ''eth0''"
proof (intro conjI)
  show "ToPrometheusNamingFormat (ToPrometheusNamingFormat s) = ToPrometheusNamingFormat s"
    by (rule ToPrometheusNamingFormat_fixed) (simp add: ToPrometheusNamingFormat_final)
  show "ToPrometheusNamingFormat ''SecurityGroupID'' = ''security_group_id''" by code_simp
  show "ToPrometheusNamingFormat ''eth0'' = ''eth0''" by code_simp
qed

section \<open>Walks with the common callback\<close>

lemma eachPage_onPage:
  "eachPage (onPage body) pages s = Returns (foldPages body pages s, pagedError pages)"
  by (induction pages arbitrary: s) (simp_all add: onPage_def)

lemma decodeJobRuns_allocated:
  "decodeJobRuns states h = (runs, h') \<Longrightarrow> length h \<le> length h' \<and> (\<forall>run\<in>set runs. allocated h' run)"
proof (induction states h arbitrary: runs h' rule: decodeJobRuns.induct)
  case (1 h)
  then show ?case by simp
next
  case (2 states h)
  obtain rs h2 where d: "decodeJobRuns states h = (rs, h2)" by (cases "decodeJobRuns states h") auto
  with 2 show ?case by (auto simp: allocated_def)
next
  case (3 v states h)
  obtain rs h2 where d: "decodeJobRuns states (h @ [v]) = (rs, h2)"
    by (cases "decodeJobRuns states (h @ [v])") auto
  from "3.IH"[of "length h" "h @ [v]" rs h2] d
  have "length (h @ [v]) \<le> length h2" and "\<forall>run\<in>set rs. allocated h2 run"
    by (auto simp: aws_String_def)
  with "3.prems" d show ?case by (auto simp: aws_String_def allocated_def)
qed

lemma runsLoop_count:
  "\<forall>run\<in>set runs. allocated h run \<Longrightarrow> fst (runsLoop runs (n, h)) = n"
proof (induction runs arbitrary: h)
  case Nil
  then show ?case by simp
next
  case (Cons run runs)
  have ne: "JobRunState run \<noteq> Some (length h)"
    using Cons.prems by (auto simp: allocated_def)
  have "\<forall>r\<in>set runs. allocated (h @ [JobRunStateRunning]) r"
    using Cons.prems by (auto simp: allocated_def split: option.splits)
  from Cons.IH[OF this] ne show ?case by (simp add: aws_String_def)
qed

lemma runsPage_count: "fst (runsPage states (n, h)) = n"
proof -
  obtain runs h' where d: "decodeJobRuns states h = (runs, h')"
    by (cases "decodeJobRuns states h") auto
  from decodeJobRuns_allocated[OF d] runsLoop_count[of runs h' n] d
  show ?thesis by (simp add: runsPage_def)
qed

lemma foldPages_runs_count: "fst (foldPages runsPage pages st) = fst st"
proof (induction pages arbitrary: st)
  case (Failed e)
  then show ?case by simp
next
  case (LastPage p)
  then show ?case by (cases st; cases p) (simp_all add: runsPage_count)
next
  case (MorePages p rest)
  then show ?case by (cases st; cases p) (simp_all add: runsPage_count)
qed

lemma jobRunsLoop_count:
  "jobRunsLoop client jobs st = Returns st' \<Longrightarrow> fst st' = fst st"
proof (induction jobs arbitrary: st)
  case Nil
  then show ?case by simp
next
  case (Cons job jobs)
  from Cons.prems
  have "jobRunsLoop client jobs (foldPages runsPage (GetJobRunsPages client job) st) = Returns st'"
    by (simp add: eachPage_onPage split: option.splits)
  from Cons.IH[OF this] show ?case by (simp add: foldPages_runs_count)
qed

lemma jobRunsLoop_returns:
  "\<forall>job\<in>set jobs. pagedError (GetJobRunsPages client job) = None
   \<Longrightarrow> \<exists>st'. jobRunsLoop client jobs st = Returns st'"
  by (induction jobs arbitrary: st) (simp_all add: eachPage_onPage)

lemma jobsCallback_count:
  "jobsCallback client page lastPage st = Returns (cont, st') \<Longrightarrow> fst st' = fst st \<and> cont = (\<not> lastPage)"
  by (cases page) (auto simp: jobsCallback_def split: outcome.splits dest: jobRunsLoop_count)

lemma jobsCallback_returns:
  "\<forall>job\<in>set (elems page). pagedError (GetJobRunsPages client job) = None
   \<Longrightarrow> \<exists>st'. jobsCallback client page lastPage st = Returns (\<not> lastPage, st')"
proof (cases page)
  case None
  then show ?thesis by (simp add: jobsCallback_def)
next
  case (Some jobs)
  assume "\<forall>job\<in>set (elems page). pagedError (GetJobRunsPages client job) = None"
  with Some have "\<forall>job\<in>set jobs. pagedError (GetJobRunsPages client job) = None"
    by (simp add: elems_def)
  from jobRunsLoop_returns[OF this, of st] obtain st' where "jobRunsLoop client jobs st = Returns st'" by blast
  with Some show ?thesis by (simp add: jobsCallback_def)
qed

lemma jobs_walk_count:
  "eachPage (jobsCallback client) pages st = Returns (st', err) \<Longrightarrow> fst st' = fst st"
proof (induction pages arbitrary: st)
  case (Failed e)
  then show ?case by simp
next
  case (LastPage p)
  then show ?case by (auto split: outcome.splits dest: jobsCallback_count)
next
  case (MorePages p rest)
  then show ?case
    by (auto split: outcome.splits if_splits dest!: jobsCallback_count) 
qed

lemma jobs_walk_returns:
  "pagedError pages = None
   \<Longrightarrow> \<forall>job\<in>set (pagedItems pages). pagedError (GetJobRunsPages client job) = None
   \<Longrightarrow> \<exists>st'. eachPage (jobsCallback client) pages st = Returns (st', None)"
proof (induction pages arbitrary: st)
  case (Failed e)
  then show ?case by simp
next
  case (LastPage p)
  then have "\<forall>job\<in>set (elems p). pagedError (GetJobRunsPages client job) = None" by simp
  from jobsCallback_returns[OF this, of True st] show ?case by auto
next
  case (MorePages p rest)
  then have "\<forall>job\<in>set (elems p). pagedError (GetJobRunsPages client job) = None" by simp
  from jobsCallback_returns[OF this, of False st]
  obtain st1 where 1: "jobsCallback client p False st = Returns (True, st1)" by auto
  from MorePages have "pagedError rest = None"
    and "\<forall>job\<in>set (pagedItems rest). pagedError (GetJobRunsPages client job) = None" by auto
  from MorePages.IH[OF this, of st1] 1 show ?case by simp
qed

text \<open>
  C10. Whenever the listing of the jobs and the listing of the runs of every listed job
  succeed, \<open>ConcurrentRunsCheck\<close> returns exactly one record, with usage 0, whatever
  the states of the runs are and whatever the store is: the address that
  \<^verbatim>\<open>aws.String\<close> returns is new, so no run's state pointer equals it.
\<close>

theorem ConcurrentRunsCheck_always_zero:
  assumes "pagedError (ListJobsPages client) = None"
    and "\<forall>job\<in>set (pagedItems (ListJobsPages client)). pagedError (GetJobRunsPages client job) = None"
  shows "ConcurrentRunsCheck client h =
           Returns (Some [newQuotaUsage concurrentRunsName None concurrentRunsDescription 0 None], None)"
proof -
  from jobs_walk_returns[OF assms, of "(0, h)"]
  obtain st' where w: "eachPage (jobsCallback client) (ListJobsPages client) (0, h) = Returns (st', None)"
    by blast
  from jobs_walk_count[OF w] have "fst st' = 0" by simp
  with w show ?thesis by (cases st') (simp add: ConcurrentRunsCheck_def usageOrError_def)
qed

theorem ConcurrentRunsCheck_always_zero_witness:
  "pagedError (ListJobsPages glueRunning) = None
   \<and> pagedItems (ListJobsPages glueRunning) = [Some ''etl'']
   \<and> GetJobRunsPages glueRunning (Some ''etl'') = LastPage (Some [Some ''RUNNING'', Some ''SUCCEEDED''])
   \<and> ConcurrentRunsCheck glueRunning [] =
         Returns (Some [newQuotaUsage concurrentRunsName None concurrentRunsDescription 0 None], None)"
proof -
  have 1: "pagedError (ListJobsPages glueRunning) = None"
    by (simp add: glueRunning_def noGlue_def)
  have 2: "\<forall>job\<in>set (pagedItems (ListJobsPages glueRunning)). pagedError (GetJobRunsPages glueRunning job) = None"
    by (simp add: glueRunning_def noGlue_def)
  have 3: "pagedItems (ListJobsPages glueRunning) = [Some ''etl'']"
    by (simp add: glueRunning_def noGlue_def elems_def)
  have 4: "GetJobRunsPages glueRunning (Some ''etl'') = LastPage (Some [Some ''RUNNING'', Some ''SUCCEEDED''])"
    by (simp add: glueRunning_def noGlue_def)
  from 1 3 4 ConcurrentRunsCheck_always_zero[OF 1 2, of "[]"] show ?thesis by simp
qed

section \<open>The subnet check\<close>

lemma subnetsLoop_Cons:
  "subnetsLoop (subnet # subnets) (infos, ce) =
     (if length (CidrBlock subnet) < 2 then Panics SliceBoundsOutOfRange
      else case snd (Atoi (drop (length (CidrBlock subnet) - 2) (CidrBlock subnet))) of
             Some err \<Rightarrow> Returns (True, infos, Some (Wrapf ErrFailedToConvertCidr (Some err)))
           | None \<Rightarrow> subnetsLoop subnets (infos @ [subnetInfo subnet], ce))"
  by (cases "Atoi (drop (length (CidrBlock subnet) - 2) (CidrBlock subnet))")
     (simp add: Let_def subnetInfo_def split: option.splits)

lemma subnetsLoop_done:
  "subnetsLoop subnets (infos, ce) = Returns (False, infos', ce')
   \<Longrightarrow> ce' = ce \<and> infos' = infos @ map subnetInfo subnets"
proof (induction subnets arbitrary: infos)
  case Nil
  then show ?case by simp
next
  case (Cons subnet subnets)
  from Cons.prems have "subnetsLoop subnets (infos @ [subnetInfo subnet], ce) = Returns (False, infos', ce')"
    unfolding subnetsLoop_Cons by (simp split: if_splits option.splits)
  from Cons.IH[OF this] show ?case by simp
qed

lemma subnetsLoop_returned:
  "subnetsLoop subnets (infos, ce) = Returns (True, infos', ce') \<Longrightarrow> ce' \<noteq> None"
proof (induction subnets arbitrary: infos)
  case Nil
  then show ?case by simp
next
  case (Cons subnet subnets)
  show ?case
  proof (cases "snd (Atoi (drop (length (CidrBlock subnet) - 2) (CidrBlock subnet)))")
    case None
    with Cons.prems have "subnetsLoop subnets (infos @ [subnetInfo subnet], ce) = Returns (True, infos', ce')"
      unfolding subnetsLoop_Cons by (simp split: if_splits)
    from Cons.IH[OF this] show ?thesis .
  next
    case (Some err)
    with Cons.prems show ?thesis
      unfolding subnetsLoop_Cons by (auto split: if_splits)
  qed
qed

lemma subnetsCallback_step:
  assumes "subnetsCallback page lastPage (infos, ce) = Returns (cont, infos', ce')"
  shows "(ce' = None \<longrightarrow> ce = None \<and> infos' = infos @ map subnetInfo (elems page) \<and> cont = (\<not> lastPage))
         \<and> (ce \<noteq> None \<longrightarrow> ce' \<noteq> None)"
proof (cases page)
  case None
  with assms show ?thesis by (auto simp: subnetsCallback_def elems_def)
next
  case (Some subnets)
  show ?thesis
  proof (cases "subnetsLoop subnets (infos, ce)")
    case (Panics x)
    with assms Some show ?thesis by (simp add: subnetsCallback_def)
  next
    case (Returns r)
    obtain returned i c where r: "r = (returned, i, c)" by (cases r) auto
    show ?thesis
    proof (cases returned)
      case True
      with assms Some Returns r subnetsLoop_returned[of subnets infos ce i c]
      show ?thesis by (auto simp: subnetsCallback_def)
    next
      case False
      with assms Some Returns r subnetsLoop_done[of subnets infos ce i c]
      show ?thesis by (auto simp: subnetsCallback_def elems_def)
    qed
  qed
qed

lemma subnets_walk:
  "eachPage subnetsCallback pages (infos, ce) = Returns ((infos', None), None)
   \<Longrightarrow> ce = None \<and> infos' = infos @ map subnetInfo (pagedItems pages)"
proof (induction pages arbitrary: infos ce)
  case (Failed e)
  then show ?case by simp
next
  case (LastPage p)
  then show ?case
    using subnetsCallback_step[of p True infos ce]
    by (auto split: outcome.splits)
next
  case (MorePages p rest)
  show ?case
  proof (cases "subnetsCallback p False (infos, ce)")
    case (Panics x)
    with MorePages.prems show ?thesis by simp
  next
    case (Returns r)
    obtain cont i c where r: "r = (cont, i, c)" by (cases r) auto
    note step = subnetsCallback_step[OF Returns[unfolded r]]
    show ?thesis
    proof (cases cont)
      case True
      with MorePages.prems Returns r
      have w: "eachPage subnetsCallback rest (i, c) = Returns ((infos', None), None)" by simp
      from MorePages.IH[OF w] have c: "c = None" and i: "infos' = i @ map subnetInfo (pagedItems rest)"
        by auto
      from step c have "ce = None" and "i = infos @ map subnetInfo (elems p)" by auto
      with i show ?thesis by simp
    next
      case False
      with MorePages.prems Returns r have "c = None" by simp
      with step False show ?thesis by auto
    qed
  qed
qed

lemma AvailableIps_records:
  assumes "AvailableIpsPerSubnetUsageCheck client = Returns (Some infos, None)"
  shows "infos = map subnetInfo (pagedItems (DescribeSubnetsPages client))"
proof -
  from assms have "eachPage subnetsCallback (DescribeSubnetsPages client) ([], None) = Returns ((infos, None), None)"
    by (auto simp: AvailableIpsPerSubnetUsageCheck_def split: outcome.splits prod.splits if_splits)
  from subnets_walk[OF this] show ?thesis by simp
qed

lemma Atoi_24: "Atoi ''24'' = (24, None)"
  by (simp add: Atoi_def digitVal_def digitChars_def)

lemma subnetInfo_24:
  assumes "CidrBlock subnet = prefix @ ''/24''" and "AvailableIpAddressCount subnet = 200"
  shows "Usage (subnetInfo subnet) = 56 \<and> Quota (subnetInfo subnet) = 256
         \<and> ResourceName (subnetInfo subnet) = SubnetId subnet
         \<and> Name (subnetInfo subnet) = availableIPsPerSubnetName"
  using assms by (simp add: subnetInfo_def Atoi_24)

text \<open>
  C9. When \<open>AvailableIpsPerSubnetUsageCheck\<close> returns its records, every listed subnet
  whose CIDR block ends in \<open>/24\<close> and which reports 200 available addresses has a record
  with usage 56 and quota 256.
\<close>

theorem AvailableIps_slash24:
  assumes "AvailableIpsPerSubnetUsageCheck client = Returns (Some infos, None)"
    and "subnet \<in> set (pagedItems (DescribeSubnetsPages client))"
    and "CidrBlock subnet = prefix @ ''/24''"
    and "AvailableIpAddressCount subnet = 200"
  shows "\<exists>r\<in>set infos. Name r = availableIPsPerSubnetName \<and> ResourceName r = SubnetId subnet
           \<and> Usage r = 56 \<and> Quota r = 256"
proof -
  from AvailableIps_records[OF assms(1)] assms(2) have "subnetInfo subnet \<in> set infos" by simp
  with subnetInfo_24[OF assms(3,4)] show ?thesis by blast
qed

theorem AvailableIps_slash24_witness:
  "AvailableIpsPerSubnetUsageCheck (noEC2\<lparr>DescribeSubnetsPages := LastPage (Some [subnet24])\<rparr>)
     = Returns (Some [subnetInfo subnet24], None)
   \<and> subnet24 \<in> set (pagedItems (DescribeSubnetsPages (noEC2\<lparr>DescribeSubnetsPages := LastPage (Some [subnet24])\<rparr>)))
   \<and> CidrBlock subnet24 = ''10.0.1.0'' @ ''/24''
   \<and> AvailableIpAddressCount subnet24 = 200
   \<and> (\<exists>r\<in>set [subnetInfo subnet24]. Name r = availableIPsPerSubnetName
         \<and> ResourceName r = SubnetId subnet24 \<and> Usage r = 56 \<and> Quota r = 256)"
proof -
  let ?client = "noEC2\<lparr>DescribeSubnetsPages := LastPage (Some [subnet24])\<rparr>"
  have 1: "AvailableIpsPerSubnetUsageCheck ?client = Returns (Some [subnetInfo subnet24], None)"
    by (simp add: AvailableIpsPerSubnetUsageCheck_def subnetsCallback_def subnetsLoop_Cons
        subnet24_def Atoi_24 subnetInfo_def)
  have 2: "subnet24 \<in> set (pagedItems (DescribeSubnetsPages ?client))"
    by (simp add: elems_def)
  have 3: "CidrBlock subnet24 = ''10.0.1.0'' @ ''/24''" by (simp add: subnet24_def)
  have 4: "AvailableIpAddressCount subnet24 = 200" by (simp add: subnet24_def)
  from AvailableIps_slash24[OF 1 2 3 4] 1 2 3 4 show ?thesis by blast
qed

lemma Atoi_slash8: "Atoi ''/8'' = (0, Some (NumError ''Atoi'' ''/8'' ErrSyntax))"
  by (simp add: Atoi_def digitVal_def digitChars_def)

text \<open>
  C6. A subnet \<open>10.0.0.0/8\<close> has the prefix length 8, a valid integer; the check converts
  the last two bytes, \<open>/8\<close>, and returns the conversion error.
\<close>

theorem AvailableIps_single_digit_prefix:
  "AvailableIpsPerSubnetUsageCheck (noEC2\<lparr>DescribeSubnetsPages := LastPage (Some [subnet8])\<rparr>)
     = Returns (None, Some (Wrapf ErrFailedToConvertCidr (Some (NumError ''Atoi'' ''/8'' ErrSyntax))))"
  by (simp add: AvailableIpsPerSubnetUsageCheck_def subnetsCallback_def subnetsLoop_Cons
      subnet8_def Atoi_slash8)

section \<open>The Glue and ECR checks\<close>

text \<open>
  C5. With one job listed and the listing of its runs failing, \<open>ConcurrentRunsCheck\<close>
  does not return an error: it panics with the provider's error.
\<close>

theorem ConcurrentRunsCheck_panics:
  "ConcurrentRunsCheck glueThrottled h = Panics (PanicError (ApiError ''ThrottlingException''))"
  by (simp add: ConcurrentRunsCheck_def glueThrottled_def noGlue_def usageOrError_def
      jobsCallback_def)

text \<open>
  The other composite check does return the error: once the repositories are listed, the
  first repository whose images cannot be listed ends \<open>ImagesPerRepositoryCheck\<close> with the
  wrapped error and no records.
\<close>

lemma imagesLoop_fails:
  "\<exists>repo\<in>set repos. pagedError (ListImagesPages client repo) \<noteq> None
   \<Longrightarrow> \<exists>e. imagesLoop client repos quotaUsages = Returns (None, Some (Wrapf ErrFailedToGetUsage (Some e)))"
proof (induction repos arbitrary: quotaUsages)
  case Nil
  then show ?case by simp
next
  case (Cons repo repos)
  show ?case
  proof (cases "pagedError (ListImagesPages client repo)")
    case None
    with Cons.prems have "\<exists>r\<in>set repos. pagedError (ListImagesPages client r) \<noteq> None" by auto
    from Cons.IH[OF this] None show ?thesis by (simp add: eachPage_onPage)
  next
    case (Some e)
    then show ?thesis by (simp add: eachPage_onPage)
  qed
qed

lemma ImagesPerRepositoryCheck_fails:
  assumes "pagedError (DescribeRepositoriesPages client) = None"
    and "\<exists>repo\<in>set (pagedItems (DescribeRepositoriesPages client)). pagedError (ListImagesPages client repo) \<noteq> None"
  shows "\<exists>e. ImagesPerRepositoryCheck client = Returns (None, Some (Wrapf ErrFailedToGetUsage (Some e)))"
proof -
  have "foldPages (\<lambda>repositories listOfRepositories. listOfRepositories @ repositories) pages acc
          = acc @ pagedItems pages" for pages :: "string option list option paged" and acc
    by (induction pages arbitrary: acc) (simp_all add: elems_def split: option.splits)
  with assms imagesLoop_fails[of "pagedItems (DescribeRepositoriesPages client)" client "[]"]
  show ?thesis by (simp add: ImagesPerRepositoryCheck_def eachPage_onPage)
qed

text \<open>
  C4. With two repositories listed in two pages, \<open>RepositoriesPerRegionCheck\<close> returns two
  records, with usage 1 and 2, not one record with usage 2.
\<close>

theorem RepositoriesPerRegionCheck_two_pages:
  "RepositoriesPerRegionCheck ecrTwoPages =
     Returns (Some [newQuotaUsage repositoriesPerRegionName None repositoriesPerRegionDescription 1 None,
                    newQuotaUsage repositoriesPerRegionName None repositoriesPerRegionDescription 2 None],
              None)"
  by (simp add: RepositoriesPerRegionCheck_def ecrTwoPages_def noECR_def usageOrError_def
      repositoriesPage_def add64_def wrap64_def len_def onPage_def)

text \<open>
  The checks that count with \<open>countPage\<close> and build their record after the walk (log
  groups, security groups, ENIs, snapshots, Glue jobs) report the number of items of all
  pages, however the items are split into pages.
\<close>

lemma foldPages_countPage:
  "0 \<le> n \<Longrightarrow> n + len (pagedItems pages) < 2 ^ 63
   \<Longrightarrow> foldPages countPage pages n = n + len (pagedItems pages)"
proof (induction pages arbitrary: n)
  case (Failed e)
  then show ?case by (simp add: len_def)
next
  case (LastPage p)
  then show ?case
    by (cases p) (simp_all add: elems_def countPage_def add64_def wrap64_def len_def)
next
  case (MorePages p rest)
  show ?case
  proof (cases p)
    case None
    with MorePages show ?thesis by (simp add: elems_def len_def)
  next
    case (Some items)
    have 1: "countPage items n = n + len items"
      using MorePages.prems Some
      by (simp add: elems_def countPage_def add64_def wrap64_def len_def)
    have "foldPages countPage rest (n + len items) = n + len items + len (pagedItems rest)"
      using MorePages.prems Some
      by (intro MorePages.IH) (simp_all add: elems_def len_def)
    with 1 Some show ?thesis by (simp add: elems_def len_def)
  qed
qed

lemma LogGroupsPerRegionCheck_total:
  assumes "pagedError (DescribeLogGroupsPages client) = None"
    and "len (pagedItems (DescribeLogGroupsPages client)) < 2 ^ 63"
  shows "LogGroupsPerRegionCheck client =
           Returns (Some [newQuotaUsage logGroupsPerRegionName None logGroupsPerRegionDescription
                            (real_of_int (len (pagedItems (DescribeLogGroupsPages client)))) None], None)"
  using assms foldPages_countPage[of 0 "DescribeLogGroupsPages client"]
  by (simp add: LogGroupsPerRegionCheck_def usageOrError_def eachPage_onPage)

section \<open>The walk of the catalog and the loops of a refresh\<close>

lemma succeeds_iff: "succeeds check \<longleftrightarrow> (\<exists>rs. check = Returns (rs, None))"
  by (auto simp: succeeds_def split: outcome.splits option.splits)

lemma candidates_Cons:
  "candidates checks (quota # quotas) =
     (case checks (QuotaCode quota) of None \<Rightarrow> candidates checks quotas
      | Some check \<Rightarrow> check # candidates checks quotas)"
  by (simp add: candidates_def List.map_filter_simps split: option.splits)

lemma candidates_append:
  "candidates checks (xs @ ys) = candidates checks xs @ candidates checks ys"
  by (simp add: candidates_def List.map_filter_def)

text \<open>The loop over one page.\<close>

lemma quotasLoop_done:
  "quotasLoop checks quotas (acc, ue) = Returns (False, acc', ue')
   \<Longrightarrow> ue' = ue \<and> acc' = acc @ concat (map (quotaRecords checks) quotas)
       \<and> (\<forall>c\<in>set (candidates checks quotas). succeeds c)"
proof (induction quotas arbitrary: acc)
  case Nil
  then show ?case by (simp add: candidates_def List.map_filter_simps)
next
  case (Cons quota quotas)
  show ?case
  proof (cases "checks (QuotaCode quota)")
    case None
    with Cons.prems have "quotasLoop checks quotas (acc, ue) = Returns (False, acc', ue')" by simp
    from Cons.IH[OF this] None show ?thesis
      by (simp add: quotaRecords_def candidates_Cons)
  next
    case (Some check)
    with Cons.prems obtain rs where c: "check = Returns (rs, None)"
      and l: "quotasLoop checks quotas (acc @ withQuota (Value quota) rs, ue) = Returns (False, acc', ue')"
      by (auto split: outcome.splits if_splits prod.splits)
    from Cons.IH[OF l] Some c show ?thesis
      by (simp add: quotaRecords_def candidates_Cons checkRecords_def withQuota_def succeeds_def)
  qed
qed

lemma quotasLoop_returned:
  "quotasLoop checks quotas (acc, ue) = Returns (True, acc', ue') \<Longrightarrow> ue' \<noteq> None"
proof (induction quotas arbitrary: acc)
  case Nil
  then show ?case by simp
next
  case (Cons quota quotas)
  show ?case
  proof (cases "checks (QuotaCode quota)")
    case None
    with Cons.prems have "quotasLoop checks quotas (acc, ue) = Returns (True, acc', ue')" by simp
    from Cons.IH[OF this] show ?thesis .
  next
    case (Some check)
    show ?thesis
    proof (cases check)
      case (Panics x)
      with Cons.prems Some show ?thesis by simp
    next
      case (Returns r)
      obtain rs err where r: "r = (rs, err)" by (cases r) auto
      show ?thesis
      proof (cases err)
        case None
        with Cons.prems Some Returns r
        have "quotasLoop checks quotas (acc @ withQuota (Value quota) rs, ue) = Returns (True, acc', ue')"
          by simp
        from Cons.IH[OF this] show ?thesis .
      next
        case (Some e)
        with Cons.prems \<open>checks (QuotaCode quota) = Some check\<close> Returns r show ?thesis by auto
      qed
    qed
  qed
qed

lemma quotasLoop_succeeds:
  "\<forall>c\<in>set (candidates checks quotas). succeeds c
   \<Longrightarrow> quotasLoop checks quotas (acc, ue) = Returns (False, acc @ concat (map (quotaRecords checks) quotas), ue)"
proof (induction quotas arbitrary: acc)
  case Nil
  then show ?case by simp
next
  case (Cons quota quotas)
  show ?case
  proof (cases "checks (QuotaCode quota)")
    case None
    with Cons show ?thesis by (simp add: candidates_Cons quotaRecords_def)
  next
    case (Some check)
    with Cons.prems have "succeeds check" and rest: "\<forall>c\<in>set (candidates checks quotas). succeeds c"
      by (simp_all add: candidates_Cons)
    then obtain rs where c: "check = Returns (rs, None)" by (auto simp: succeeds_iff)
    from Cons.IH[OF rest] Some c show ?thesis
      by (simp add: quotaRecords_def checkRecords_def withQuota_def)
  qed
qed

lemma quotasLoop_no_panic:
  "\<forall>c\<in>set (candidates checks quotas). \<forall>x. c \<noteq> Panics x
   \<Longrightarrow> \<exists>r. quotasLoop checks quotas (acc, ue) = Returns r"
proof (induction quotas arbitrary: acc)
  case Nil
  show ?case by auto
next
  case (Cons quota quotas)
  show ?case
  proof (cases "checks (QuotaCode quota)")
    case None
    with Cons show ?thesis by (simp add: candidates_Cons)
  next
    case (Some check)
    with Cons.prems have np: "\<forall>x. check \<noteq> Panics x"
      and rest: "\<forall>c\<in>set (candidates checks quotas). \<forall>x. c \<noteq> Panics x"
      by (simp_all add: candidates_Cons)
    from np obtain rs err where c: "check = Returns (rs, err)" by (cases check) auto
    from Cons.IH[OF rest] Some c show ?thesis by (cases err) auto
  qed
qed

text \<open>The callback and the walk.\<close>

lemma quotasCallback_step:
  assumes "quotasCallback checks page lastPage (acc, ue) = Returns (cont, acc', ue')"
  shows "(ue' = None \<longrightarrow> ue = None \<and> acc' = acc @ concat (map (quotaRecords checks) (elems page))
            \<and> (\<forall>c\<in>set (candidates checks (elems page)). succeeds c) \<and> cont = (\<not> lastPage))
         \<and> (ue \<noteq> None \<longrightarrow> ue' \<noteq> None)"
proof (cases page)
  case None
  with assms show ?thesis by (auto simp: quotasCallback_def elems_def candidates_def)
next
  case (Some quotas)
  show ?thesis
  proof (cases "quotasLoop checks quotas (acc, ue)")
    case (Panics x)
    with assms Some show ?thesis by (simp add: quotasCallback_def)
  next
    case (Returns r)
    obtain returned a u where r: "r = (returned, a, u)" by (cases r) auto
    show ?thesis
    proof (cases returned)
      case True
      with assms Some Returns r quotasLoop_returned[of checks quotas acc ue a u]
      show ?thesis by (auto simp: quotasCallback_def)
    next
      case False
      with assms Some Returns r quotasLoop_done[of checks quotas acc ue a u]
      show ?thesis by (auto simp: quotasCallback_def elems_def)
    qed
  qed
qed

lemma quotas_walk:
  "eachPage (quotasCallback checks) pages (acc, ue) = Returns ((acc', None), None)
   \<Longrightarrow> ue = None \<and> acc' = acc @ concat (map (quotaRecords checks) (pagedItems pages))
       \<and> (\<forall>c\<in>set (candidates checks (pagedItems pages)). succeeds c)
       \<and> pagedError pages = None"
proof (induction pages arbitrary: acc ue)
  case (Failed e)
  then show ?case by simp
next
  case (LastPage p)
  then show ?case
    using quotasCallback_step[of checks p True acc ue]
    by (auto split: outcome.splits)
next
  case (MorePages p rest)
  show ?case
  proof (cases "quotasCallback checks p False (acc, ue)")
    case (Panics x)
    with MorePages.prems show ?thesis by simp
  next
    case (Returns r)
    obtain cont a u where r: "r = (cont, a, u)" by (cases r) auto
    note step = quotasCallback_step[OF Returns[unfolded r]]
    show ?thesis
    proof (cases cont)
      case True
      with MorePages.prems Returns r
      have w: "eachPage (quotasCallback checks) rest (a, u) = Returns ((acc', None), None)" by simp
      from MorePages.IH[OF w] have u: "u = None"
        and a: "acc' = a @ concat (map (quotaRecords checks) (pagedItems rest))"
        and c: "\<forall>c\<in>set (candidates checks (pagedItems rest)). succeeds c"
        and e: "pagedError rest = None"
        by auto
      from step u have "ue = None" and "a = acc @ concat (map (quotaRecords checks) (elems p))"
        and "\<forall>c\<in>set (candidates checks (elems p)). succeeds c" by auto
      with a c e show ?thesis by (auto simp: candidates_append)
    next
      case False
      with MorePages.prems Returns r have "u = None" by simp
      with step False show ?thesis by auto
    qed
  qed
qed

lemma quotas_walk_succeeds:
  "pagedError pages = None \<Longrightarrow> \<forall>c\<in>set (candidates checks (pagedItems pages)). succeeds c
   \<Longrightarrow> eachPage (quotasCallback checks) pages (acc, ue)
       = Returns ((acc @ concat (map (quotaRecords checks) (pagedItems pages)), ue), None)"
proof (induction pages arbitrary: acc)
  case (Failed e)
  then show ?case by simp
next
  case (LastPage p)
  then show ?case
    by (cases p) (simp_all add: quotasCallback_def elems_def quotasLoop_succeeds)
next
  case (MorePages p rest)
  then show ?case
    by (cases p) (simp_all add: quotasCallback_def elems_def quotasLoop_succeeds candidates_append)
qed

lemma quotas_walk_no_panic:
  "\<forall>c\<in>set (candidates checks (pagedItems pages)). \<forall>x. c \<noteq> Panics x
   \<Longrightarrow> \<exists>r. eachPage (quotasCallback checks) pages st = Returns r"
proof (induction pages arbitrary: st)
  case (Failed e)
  then show ?case by simp
next
  case (LastPage p)
  show ?case
  proof (cases p)
    case None
    then show ?thesis by (simp add: quotasCallback_def)
  next
    case (Some quotas)
    with LastPage have "\<forall>c\<in>set (candidates checks quotas). \<forall>x. c \<noteq> Panics x" by (simp add: elems_def)
    from quotasLoop_no_panic[OF this, of "fst st" "snd st"] Some show ?thesis
      by (auto simp: quotasCallback_def)
  qed
next
  case (MorePages p rest)
  from MorePages.prems have rest: "\<forall>c\<in>set (candidates checks (pagedItems rest)). \<forall>x. c \<noteq> Panics x"
    by (simp add: candidates_append)
  show ?case
  proof (cases p)
    case None
    with MorePages.IH[OF rest] show ?thesis by (simp add: quotasCallback_def)
  next
    case (Some quotas)
    with MorePages.prems have "\<forall>c\<in>set (candidates checks quotas). \<forall>x. c \<noteq> Panics x"
      by (simp add: elems_def candidates_append)
    from quotasLoop_no_panic[OF this, of "fst st" "snd st"]
    obtain returned st' where "quotasLoop checks quotas st = Returns (returned, st')" by auto
    with Some MorePages.IH[OF rest, of st'] show ?thesis
      by (simp add: quotasCallback_def)
  qed
qed

lemma walkQuotas_succeeds:
  "\<not> walkFails checks pages
   \<Longrightarrow> walkQuotas checks pages = Returns (Some (concat (map (quotaRecords checks) (pagedItems pages))), None)"
  by (simp add: walkFails_def walkQuotas_def quotas_walk_succeeds)

lemma walkQuotas_result:
  assumes "walkQuotas checks pages = Returns (recs, err)"
  shows "if walkFails checks pages then recs = None \<and> err \<noteq> None
         else recs = Some (concat (map (quotaRecords checks) (pagedItems pages))) \<and> err = None"
proof (cases "walkFails checks pages")
  case False
  with assms walkQuotas_succeeds[OF False] show ?thesis by simp
next
  case True
  have "err \<noteq> None"
  proof
    assume "err = None"
    with assms obtain acc where "eachPage (quotasCallback checks) pages ([], None) = Returns ((acc, None), None)"
      by (auto simp: walkQuotas_def split: outcome.splits prod.splits if_splits)
    from quotas_walk[OF this] True show False by (simp add: walkFails_def)
  qed
  moreover from assms have "err \<noteq> None \<longrightarrow> recs = None"
    by (auto simp: walkQuotas_def split: outcome.splits prod.splits if_splits)
  ultimately show ?thesis using True by simp
qed

lemma walkQuotas_no_panic:
  "\<forall>c\<in>set (candidates checks (pagedItems pages)). \<forall>x. c \<noteq> Panics x
   \<Longrightarrow> \<exists>r. walkQuotas checks pages = Returns r"
  using quotas_walk_no_panic[of checks pages "([], None)"]
  by (auto simp: walkQuotas_def)

text \<open>The three loops of a refresh.\<close>

lemma servicesLoop_otherChecksLoop:
  "servicesLoop forService services acc = otherChecksLoop (map forService services) acc"
  by (induction services arbitrary: acc) (auto split: outcome.splits option.splits)

lemma otherChecksLoop_append:
  "otherChecksLoop (xs @ ys) acc =
     (case otherChecksLoop xs acc of
        Returns (Inl acc') \<Rightarrow> otherChecksLoop ys acc'
      | r \<Rightarrow> r)"
  by (induction xs arbitrary: acc) (auto split: outcome.splits option.splits sum.splits)

lemma otherChecksLoop_done:
  "otherChecksLoop checks acc = Returns (Inl out)
   \<Longrightarrow> out = acc @ concat (map checkRecords checks) \<and> (\<forall>c\<in>set checks. succeeds c)"
proof (induction checks arbitrary: acc)
  case Nil
  then show ?case by simp
next
  case (Cons check checks)
  from Cons.prems obtain rs where c: "check = Returns (rs, None)"
    and l: "otherChecksLoop checks (acc @ elems rs) = Returns (Inl out)"
    by (auto split: outcome.splits option.splits)
  from Cons.IH[OF l] c show ?case by (simp add: checkRecords_def succeeds_def)
qed

lemma otherChecksLoop_succeeds:
  "\<forall>c\<in>set checks. succeeds c
   \<Longrightarrow> otherChecksLoop checks acc = Returns (Inl (acc @ concat (map checkRecords checks)))"
proof (induction checks arbitrary: acc)
  case Nil
  then show ?case by simp
next
  case (Cons check checks)
  then obtain rs where c: "check = Returns (rs, None)" by (auto simp: succeeds_iff)
  from Cons c show ?case by (simp add: checkRecords_def)
qed

lemma otherChecksLoop_no_panic:
  "\<forall>c\<in>set checks. \<forall>x. c \<noteq> Panics x \<Longrightarrow> \<exists>r. otherChecksLoop checks acc = Returns r"
proof (induction checks arbitrary: acc)
  case Nil
  show ?case by auto
next
  case (Cons check checks)
  then obtain rs err where c: "check = Returns (rs, err)" by (cases check) auto
  from Cons c show ?case by (cases err) auto
qed

lemma QuotasAndUsage_steps:
  "QuotasAndUsage s =
     (case otherChecksLoop (refreshSteps s) [] of
        Panics x \<Rightarrow> Panics x
      | Returns (Inr e) \<Rightarrow> Returns (None, Some e)
      | Returns (Inl allQuotaUsages) \<Rightarrow> Returns (Some allQuotaUsages, None))"
  by (auto simp: QuotasAndUsage_def refreshSteps_def servicesLoop_otherChecksLoop
      otherChecksLoop_append Let_def split: outcome.splits sum.splits)

lemma QuotasAndUsage_succeeds:
  "\<forall>step\<in>set (refreshSteps s). succeeds step
   \<Longrightarrow> QuotasAndUsage s = Returns (Some (concat (map checkRecords (refreshSteps s))), None)"
  by (simp add: QuotasAndUsage_steps otherChecksLoop_succeeds)

lemma QuotasAndUsage_result:
  assumes "QuotasAndUsage s = Returns (recs, err)"
  shows "if \<forall>step\<in>set (refreshSteps s). succeeds step
         then recs = Some (concat (map checkRecords (refreshSteps s))) \<and> err = None
         else recs = None \<and> err \<noteq> None"
proof (cases "\<forall>step\<in>set (refreshSteps s). succeeds step")
  case True
  with assms QuotasAndUsage_succeeds[OF True] show ?thesis by simp
next
  case False
  have "err \<noteq> None"
  proof
    assume "err = None"
    with assms obtain out where "otherChecksLoop (refreshSteps s) [] = Returns (Inl out)"
      by (auto simp: QuotasAndUsage_steps split: outcome.splits sum.splits)
    from otherChecksLoop_done[OF this] False show False by simp
  qed
  moreover from assms have "err \<noteq> None \<longrightarrow> recs = None"
    by (auto simp: QuotasAndUsage_steps split: outcome.splits sum.splits)
  ultimately show ?thesis using False by simp
qed

lemma QuotasAndUsage_no_panic:
  "\<forall>step\<in>set (refreshSteps s). \<forall>x. step \<noteq> Panics x \<Longrightarrow> \<exists>r. QuotasAndUsage s = Returns r"
  using otherChecksLoop_no_panic[of "refreshSteps s" "[]"]
  by (auto simp: QuotasAndUsage_steps split: outcome.splits sum.splits)

lemma walkQuotas_succeeds_iff:
  "succeeds (walkQuotas checks pages) \<longleftrightarrow> \<not> walkFails checks pages"
proof
  assume "succeeds (walkQuotas checks pages)"
  then obtain rs where "walkQuotas checks pages = Returns (rs, None)" by (auto simp: succeeds_iff)
  from walkQuotas_result[OF this] show "\<not> walkFails checks pages" by (auto split: if_splits)
next
  assume "\<not> walkFails checks pages"
  from walkQuotas_succeeds[OF this] show "succeeds (walkQuotas checks pages)" by (simp add: succeeds_def)
qed

lemma walkQuotas_records:
  "checkRecords (walkQuotas checks pages) =
     (if walkFails checks pages then [] else concat (map (quotaRecords checks) (pagedItems pages)))"
proof (cases "walkFails checks pages")
  case False
  from walkQuotas_succeeds[OF this] False show ?thesis by (simp add: checkRecords_def elems_def)
next
  case True
  then have "\<not> succeeds (walkQuotas checks pages)" by (simp add: walkQuotas_succeeds_iff)
  with True show ?thesis
    by (auto simp: checkRecords_def succeeds_def split: outcome.splits option.splits prod.splits)
qed

lemma catalog_quota_merged:
  assumes "QuotasAndUsage s = Returns (Some recs, None)"
    and "\<not> isAwsChina s"
    and "service \<in> set allServices"
    and "quota \<in> set (pagedItems (ListServiceQuotasPages (quotasService s) service))"
    and "serviceQuotasUsageChecks s (QuotaCode quota) = Some check"
    and "r \<in> set (checkRecords check)"
  shows "r\<lparr>Quota := Value quota\<rparr> \<in> set recs"
proof -
  let ?step = "quotasForService s service"
  from QuotasAndUsage_result[OF assms(1)]
  have all: "\<forall>step\<in>set (refreshSteps s). succeeds step"
    and recs: "recs = concat (map checkRecords (refreshSteps s))"
    by (auto split: if_splits)
  from assms(2,3) have step: "?step \<in> set (refreshSteps s)" by (simp add: refreshSteps_def)
  with all have "succeeds ?step" by blast
  then have "\<not> walkFails (serviceQuotasUsageChecks s) (ListServiceQuotasPages (quotasService s) service)"
    by (simp add: quotasForService_def walkQuotas_succeeds_iff)
  then have "checkRecords ?step =
      concat (map (quotaRecords (serviceQuotasUsageChecks s))
                (pagedItems (ListServiceQuotasPages (quotasService s) service)))"
    by (simp add: quotasForService_def walkQuotas_records)
  moreover from assms(5,6) have "r\<lparr>Quota := Value quota\<rparr> \<in> set (quotaRecords (serviceQuotasUsageChecks s) quota)"
    by (simp add: quotaRecords_def)
  ultimately have "r\<lparr>Quota := Value quota\<rparr> \<in> set (checkRecords ?step)"
    using assms(4) by auto
  with step recs show ?thesis by auto
qed

section \<open>What the registered checks return\<close>

lemma checkRecords_returned: "set (checkRecords check) \<subseteq> set (returnedRecords check)"
  by (auto simp: checkRecords_def returnedRecords_def split: outcome.splits option.splits)

lemma foldPages_inv:
  assumes "P s" and "\<And>x s. P s \<Longrightarrow> P (body x s)"
  shows "P (foldPages body pages s)"
  using assms(1)
proof (induction pages arbitrary: s)
  case (Failed e)
  then show ?case by simp
next
  case (LastPage p)
  then show ?case by (cases p) (simp_all add: assms(2))
next
  case (MorePages p rest)
  then show ?case by (cases p) (simp_all add: assms(2))
qed

lemma unset_new: "n \<in> set names \<Longrightarrow> unset names (newQuotaUsage n rn d u t)"
  by (simp add: unset_def newQuotaUsage_def)

lemma usageOrError_unset:
  assumes "\<And>s err. walked = Returns (s, err) \<Longrightarrow> \<forall>r\<in>set (records s). unset names r"
  shows "\<forall>r\<in>set (returnedRecords (usageOrError walked records)). unset names r"
  using assms
  by (cases walked) (auto simp: usageOrError_def returnedRecords_def elems_def split: if_splits)

text \<open>A check that appends records page by page.\<close>

lemma appending_unset:
  assumes "\<And>x. \<forall>r\<in>set (f x). unset names r"
  shows "\<forall>r\<in>set (returnedRecords
            (usageOrError (eachPage (onPage (\<lambda>x quotaUsages. quotaUsages @ f x)) pages [])
               (\<lambda>quotaUsages. quotaUsages))). unset names r"
proof (rule usageOrError_unset)
  fix s err
  assume "eachPage (onPage (\<lambda>x quotaUsages. quotaUsages @ f x)) pages [] = Returns (s, err)"
  then have s: "s = foldPages (\<lambda>x quotaUsages. quotaUsages @ f x) pages []"
    by (simp add: eachPage_onPage)
  have "\<forall>r\<in>set (foldPages (\<lambda>x quotaUsages. quotaUsages @ f x) pages []). unset names r"
    by (rule foldPages_inv) (use assms in auto)
  with s show "\<forall>r\<in>set s. unset names r" by simp
qed

text \<open>A check that reports one total.\<close>

lemma single_unset:
  "n \<in> set names \<Longrightarrow>
   \<forall>r\<in>set (returnedRecords (usageOrError walked (\<lambda>s. [newQuotaUsage n rn d (u s) t]))). unset names r"
  by (rule usageOrError_unset) (simp add: unset_new)

lemma RulesPerSecurityGroup_unset:
  "\<forall>r\<in>set (returnedRecords (RulesPerSecurityGroupUsageCheck client)).
     unset [inboundRulesPerSecGrpName, outboundRulesPerSecGrpName] r"
  unfolding RulesPerSecurityGroupUsageCheck_def
  by (rule appending_unset) (auto simp: securityGroupUsages_def Let_def unset_new)

lemma SecurityGroupsPerENI_unset:
  "\<forall>r\<in>set (returnedRecords (SecurityGroupsPerENIUsageCheck client)). unset [secGroupsPerENIName] r"
  unfolding SecurityGroupsPerENIUsageCheck_def
  by (rule appending_unset) (auto simp: eniUsage_def unset_new)

lemma SecurityGroupsPerRegion_unset:
  "\<forall>r\<in>set (returnedRecords (SecurityGroupsPerRegionUsageCheck client)). unset [securityGroupsPerRegionName] r"
  unfolding SecurityGroupsPerRegionUsageCheck_def by (rule single_unset) simp

lemma StandardSpot_unset:
  "\<forall>r\<in>set (returnedRecords (StandardSpotInstanceRequestsUsageCheck client)). unset [spotInstanceRequestsName] r"
  unfolding StandardSpotInstanceRequestsUsageCheck_def by (rule single_unset) simp

lemma RunningOnDemand_unset:
  "\<forall>r\<in>set (returnedRecords (RunningOnDemandStandardInstancesUsageCheck client)). unset [onDemandInstanceRequestsName] r"
  unfolding RunningOnDemandStandardInstancesUsageCheck_def by (rule single_unset) simp

lemma ReadReplicas_unset:
  "\<forall>r\<in>set (returnedRecords (ReadReplicasPerMasterCheck client)). unset [numReadReplicasPerMasterName] r"
  unfolding ReadReplicasPerMasterCheck_def
  by (rule appending_unset) (auto simp: clusterUsage_def Let_def unset_new)

lemma ENIsPerRegion_unset:
  "\<forall>r\<in>set (returnedRecords (ENIsPerRegionCheck client)). unset [eNIsPerRegionName] r"
  unfolding ENIsPerRegionCheck_def by (rule single_unset) simp

lemma LogGroups_unset:
  "\<forall>r\<in>set (returnedRecords (LogGroupsPerRegionCheck client)). unset [logGroupsPerRegionName] r"
  unfolding LogGroupsPerRegionCheck_def by (rule single_unset) simp

lemma storageCheck_unset:
  "\<forall>r\<in>set (returnedRecords (storageCheck client volumeType name description)). unset [name] r"
  unfolding storageCheck_def by (rule single_unset) simp

lemma iopsCheck_unset:
  "\<forall>r\<in>set (returnedRecords (iopsCheck client volumeType name description)). unset [name] r"
  unfolding iopsCheck_def by (rule single_unset) simp

lemma EbsSnapshots_unset:
  "\<forall>r\<in>set (returnedRecords (EbsSnapshotsPerRegionCheck client)). unset [ebsSnapshotsPerRegionName] r"
  unfolding EbsSnapshotsPerRegionCheck_def by (rule single_unset) simp

lemma JobsPerTrigger_unset:
  "\<forall>r\<in>set (returnedRecords (JobsPerTriggerCheck client)). unset [jobsPerTriggerName] r"
  by (auto simp: JobsPerTriggerCheck_def returnedRecords_def elems_def eachPage_onPage
      triggerUsage_def Let_def unset_new split: sum.splits)

lemma JobsPerAccount_unset:
  "\<forall>r\<in>set (returnedRecords (JobsPerAccountCheck client)). unset [jobsName] r"
  unfolding JobsPerAccountCheck_def by (rule single_unset) simp

lemma ConcurrentRunsPerJob_unset:
  "\<forall>r\<in>set (returnedRecords (ConcurrentRunsPerJobCheck client)). unset [concurrentRunsPerJobName] r"
  unfolding ConcurrentRunsPerJobCheck_def
  by (rule appending_unset) (auto simp: jobUsage_def unset_new)

lemma DPUs_unset:
  "\<forall>r\<in>set (returnedRecords (DPUsCheck client)). unset [dPUsName] r"
  unfolding DPUsCheck_def by (rule single_unset) simp

lemma ConcurrentRuns_unset:
  "\<forall>r\<in>set (returnedRecords (ConcurrentRunsCheck client h)). unset [concurrentRunsName] r"
  unfolding ConcurrentRunsCheck_def
  by (rule usageOrError_unset) (auto simp: unset_new)

lemma Repositories_unset:
  "\<forall>r\<in>set (returnedRecords (RepositoriesPerRegionCheck client)). unset [repositoriesPerRegionName] r"
  unfolding RepositoriesPerRegionCheck_def
proof (rule usageOrError_unset)
  fix s err
  assume "eachPage (onPage repositoriesPage) (DescribeRepositoriesPages client) (0, []) = Returns (s, err)"
  then have s: "s = foldPages repositoriesPage (DescribeRepositoriesPages client) (0, [])"
    by (simp add: eachPage_onPage)
  have "\<forall>r\<in>set (snd (foldPages repositoriesPage (DescribeRepositoriesPages client) (0, []))).
          unset [repositoriesPerRegionName] r"
    by (rule foldPages_inv) (auto simp: repositoriesPage_def Let_def unset_new split: prod.splits)
  with s show "\<forall>r\<in>set (case s of (repositoryCount, quotaUsages) \<Rightarrow> quotaUsages).
                 unset [repositoriesPerRegionName] r"
    by (simp add: case_prod_unfold)
qed

lemma imagesLoop_unset:
  "\<forall>r\<in>set quotaUsages. unset [imagesPerRepositoryName] r
   \<Longrightarrow> \<forall>r\<in>set (returnedRecords (imagesLoop client repos quotaUsages)). unset [imagesPerRepositoryName] r"
proof (induction repos arbitrary: quotaUsages)
  case Nil
  then show ?case by (simp add: returnedRecords_def elems_def)
next
  case (Cons repo repos)
  show ?case
  proof (cases "pagedError (ListImagesPages client repo)")
    case None
    have "\<forall>r\<in>set (quotaUsages @ [newQuotaUsage imagesPerRepositoryName repo imagesPerRepositoryDescription
             (real_of_int (foldPages countPage (ListImagesPages client repo) 0)) None]).
            unset [imagesPerRepositoryName] r"
      using Cons.prems by (auto simp: unset_new)
    from Cons.IH[OF this] None show ?thesis by (simp add: eachPage_onPage)
  next
    case (Some e)
    then show ?thesis by (simp add: eachPage_onPage returnedRecords_def elems_def)
  qed
qed

lemma ImagesPerRepository_unset:
  "\<forall>r\<in>set (returnedRecords (ImagesPerRepositoryCheck client)). unset [imagesPerRepositoryName] r"
proof (cases "pagedError (DescribeRepositoriesPages client)")
  case None
  with imagesLoop_unset[of "[]" client] show ?thesis
    by (simp add: ImagesPerRepositoryCheck_def eachPage_onPage)
next
  case (Some e)
  then show ?thesis
    by (simp add: ImagesPerRepositoryCheck_def eachPage_onPage returnedRecords_def elems_def)
qed

lemma describeLoop_unset:
  "\<forall>r\<in>set quotaUsages. unset [flinkKPUsPerAppName] r
   \<Longrightarrow> describeLoop client apps quotaUsages = Inl quotaUsages'
   \<Longrightarrow> \<forall>r\<in>set quotaUsages'. unset [flinkKPUsPerAppName] r"
proof (induction apps arbitrary: quotaUsages)
  case Nil
  then show ?case by simp
next
  case (Cons app apps)
  from Cons.prems(2) obtain response where d: "DescribeApplication client app = Inr response"
    and l: "describeLoop client apps
              (quotaUsages @ [newQuotaUsage flinkKPUsPerAppName (ApplicationName response)
                                flinkKPUsPerAppDescription
                                (real_of_int (add64 (CurrentParallelism response) 1)) None]) = Inl quotaUsages'"
    by (auto split: sum.splits)
  show ?case
    by (rule Cons.IH[OF _ l]) (use Cons.prems(1) in \<open>auto simp: unset_new\<close>)
qed

lemma appKPULoop_unset:
  "\<forall>r\<in>set quotaUsages. unset [flinkKPUsPerAppName] r
   \<Longrightarrow> \<forall>r\<in>set (elems (fst (appKPULoop client pages quotaUsages))). unset [flinkKPUsPerAppName] r"
proof (induction pages arbitrary: quotaUsages)
  case (Failed e)
  then show ?case by (simp add: elems_def)
next
  case (LastPage apps)
  then show ?case
    by (auto simp: elems_def split: sum.splits dest: describeLoop_unset)
next
  case (MorePages apps rest)
  show ?case
  proof (cases "describeLoop client apps quotaUsages")
    case (Inl quotaUsages')
    from describeLoop_unset[OF MorePages.prems Inl] MorePages.IH[of quotaUsages'] Inl
    show ?thesis by simp
  next
    case (Inr e)
    then show ?thesis by (simp add: elems_def)
  qed
qed

lemma AppKPU_unset:
  "\<forall>r\<in>set (returnedRecords (AppKPUUsageCheck client)). unset [flinkKPUsPerAppName] r"
  using appKPULoop_unset[of "[]" client "ListApplications client"]
  by (simp add: AppKPUUsageCheck_def returnedRecords_def case_prod_unfold)

lemma appsLoop_unset:
  "\<forall>r\<in>set (elems (fst (appsLoop pages n))). unset [appsPerRegionName] r"
  by (induction pages arbitrary: n) (simp_all add: elems_def unset_new)

lemma AppsPerRegion_unset:
  "\<forall>r\<in>set (returnedRecords (AppsPerRegionCheck client)). unset [appsPerRegionName] r"
  using appsLoop_unset[of "ListApplications client" 0]
  by (simp add: AppsPerRegionCheck_def returnedRecords_def case_prod_unfold)

lemma UserSnapshots_unset:
  "\<forall>r\<in>set (returnedRecords (UserSnapshotsPerRegionCheck client)). unset [userSnapshotsPerRegionName] r"
  unfolding UserSnapshotsPerRegionCheck_def by (rule single_unset) simp

lemmas check_unset =
  RulesPerSecurityGroup_unset SecurityGroupsPerENI_unset SecurityGroupsPerRegion_unset
  StandardSpot_unset RunningOnDemand_unset ReadReplicas_unset ENIsPerRegion_unset LogGroups_unset
  storageCheck_unset iopsCheck_unset EbsSnapshots_unset JobsPerTrigger_unset JobsPerAccount_unset
  ConcurrentRunsPerJob_unset DPUs_unset ConcurrentRuns_unset Repositories_unset
  ImagesPerRepository_unset AppKPU_unset AppsPerRegion_unset UserSnapshots_unset

lemmas storage_defs =
  MaxGP2StoragePerRegionCheck_def MaxIo1StoragePerRegionCheck_def MaxIo2StoragePerRegionCheck_def
  MaxGP3StoragePerRegionCheck_def MaxSt1StoragePerRegionCheck_def MaxStandardStoragePerRegionCheck_def
  MaxSc1StoragePerRegionCheck_def MaxIo2IopsPerRegionCheck_def MaxIo1IopsPerRegionCheck_def

lemma serviceQuotasUsageCheckList_unset:
  assumes "(code, check) \<in> set (serviceQuotasUsageCheckList c)"
  shows "\<forall>r\<in>set (returnedRecords check). unset (declaredNames code) r"
  using assms unfolding serviceQuotasUsageCheckList_def
  by (simp only: set_simps insert_iff empty_iff prod.inject; elim disjE conjE FalseE; hypsubst)
     (simp_all add: declaredNames_def registeredNames_def storage_defs check_unset)

lemma serviceDefaultUsageCheckList_unset:
  assumes "(code, check) \<in> set (serviceDefaultUsageCheckList c)"
  shows "\<forall>r\<in>set (returnedRecords check). unset (declaredNames code) r"
  using assms unfolding serviceDefaultUsageCheckList_def
  by (simp only: set_simps insert_iff empty_iff prod.inject; elim disjE conjE FalseE; hypsubst)
     (simp_all add: declaredNames_def registeredNames_def check_unset)

section \<open>A worked refresh\<close>

lemma others_noClients:
  "AvailableIpsPerSubnetUsageCheck (ec2Client noClients) = Returns (Some [], None)"
  "asgUsage noClients = Returns (Some [], None)"
  "MaxSendIn24HoursCheck (sesv2Client noClients) = Returns (Some [sesRecord], None)"
  by (simp_all add: noClients_def noEC2_def AvailableIpsPerSubnetUsageCheck_def subnetsCallback_def
      MaxSendIn24HoursCheck_def sesRecord_def)

lemma walk_empty: "walkQuotas checks (LastPage (Some [])) = Returns (Some [], None)"
  by (simp add: walkQuotas_def quotasCallback_def)

lemma walk_single:
  "walkQuotas checks (LastPage (Some [quota])) =
     (case checks (QuotaCode quota) of
        None \<Rightarrow> Returns (Some [], None)
      | Some (Panics x) \<Rightarrow> Panics x
      | Some (Returns (quotaUsages, Some e)) \<Rightarrow> Returns (None, Some e)
      | Some (Returns (quotaUsages, None)) \<Rightarrow> Returns (Some (withQuota (Value quota) quotaUsages), None))"
  by (simp add: walkQuotas_def quotasCallback_def split: option.splits outcome.splits prod.splits)

lemma reg_vpc: "map_of (serviceQuotasUsageCheckList c) ''L-0EA8095F'' = Some (RulesPerSecurityGroupUsageCheck (ec2Client c))"
  by (simp add: serviceQuotasUsageCheckList_def)
lemma reg_logs: "map_of (serviceQuotasUsageCheckList c) ''L-C7B9AAAB'' = Some (LogGroupsPerRegionCheck (logsClient c))"
  by (simp add: serviceQuotasUsageCheckList_def)
lemma reg_glue: "map_of (serviceQuotasUsageCheckList c) ''L-5E4153CA'' = Some (ConcurrentRunsCheck (glueClient c) (store c))"
  by (simp add: serviceQuotasUsageCheckList_def)

lemma checks_noClients:
  "RulesPerSecurityGroupUsageCheck (ec2Client noClients) = Returns (Some [], None)"
  "LogGroupsPerRegionCheck (logsClient noClients) =
     Returns (Some [newQuotaUsage logGroupsPerRegionName None logGroupsPerRegionDescription 0 None], None)"
  "ConcurrentRunsCheck (glueClient noClients) (store noClients) =
     Returns (Some [newQuotaUsage concurrentRunsName None concurrentRunsDescription 0 None], None)"
  by (simp_all add: noClients_def noEC2_def noGlue_def RulesPerSecurityGroupUsageCheck_def usageOrError_def
      onPage_def LogGroupsPerRegionCheck_def countPage_def add64_def wrap64_def len_def
      ConcurrentRunsCheck_def jobsCallback_def)

lemma example_result:
  "QuotasAndUsage (exampleRefresh noClients ''eu-west-1'') =
     Returns (Some [(newQuotaUsage logGroupsPerRegionName None logGroupsPerRegionDescription 0 None)\<lparr>Quota := 1000000\<rparr>,
                    (newQuotaUsage concurrentRunsName None concurrentRunsDescription 0 None)\<lparr>Quota := 50\<rparr>,
                    sesRecord], None)"
  by (simp add: QuotasAndUsage_def exampleRefresh_def examplePartitions_def allServices_def
      quotasForService_def defaultsForService_def exampleQuotas_def walk_empty walk_single
      newUsageChecks_def reg_vpc reg_logs reg_glue checks_noClients others_noClients
      withQuota_def elems_def)

section \<open>The refresh\<close>

lemma isValidRegion_example:
  "isValidRegion examplePartitions ''eu-west-1'' = (True, False)"
  "isValidRegion examplePartitions ''cn-north-1'' = (True, True)"
  by (simp_all add: examplePartitions_def)

lemma NewServiceQuotas_example:
  "NewServiceQuotas examplePartitions None exampleQuotas c ''eu-west-1'' = (Some (exampleRefresh c ''eu-west-1''), None)"
  "NewServiceQuotas examplePartitions None exampleQuotas c ''cn-north-1'' = (Some (exampleRefresh c ''cn-north-1''), None)"
  by (simp_all add: NewServiceQuotas_def isValidRegion_example exampleRefresh_def newUsageChecks_def)

lemma exampleRefresh_china: "isAwsChina (exampleRefresh c ''cn-north-1'')"
  by (simp add: exampleRefresh_def isValidRegion_example)

lemma exampleRefresh_commercial: "\<not> isAwsChina (exampleRefresh c ''eu-west-1'')"
  by (simp add: exampleRefresh_def isValidRegion_example)

lemma others_subnetClients:
  "AvailableIpsPerSubnetUsageCheck (ec2Client subnetClients) = Returns (Some [subnetInfo subnet24], None)"
  "asgUsage subnetClients = Returns (Some [], None)"
  "MaxSendIn24HoursCheck (sesv2Client subnetClients) = Returns (Some [sesRecord], None)"
  by (simp_all add: subnetClients_def noClients_def noEC2_def AvailableIpsPerSubnetUsageCheck_def
      subnetsCallback_def MaxSendIn24HoursCheck_def sesRecord_def subnet24_def Atoi_24 subnetInfo_def)

lemma checks_throttledClients:
  "RulesPerSecurityGroupUsageCheck (ec2Client throttledClients) = Returns (Some [], None)"
  "LogGroupsPerRegionCheck (logsClient throttledClients) =
     Returns (Some [newQuotaUsage logGroupsPerRegionName None logGroupsPerRegionDescription 0 None], None)"
  "ConcurrentRunsCheck (glueClient throttledClients) (store throttledClients) =
     Panics (PanicError (ApiError ''ThrottlingException''))"
  by (simp_all add: throttledClients_def noClients_def noEC2_def noGlue_def glueThrottled_def
      RulesPerSecurityGroupUsageCheck_def usageOrError_def
      onPage_def LogGroupsPerRegionCheck_def countPage_def add64_def wrap64_def len_def
      ConcurrentRunsCheck_def jobsCallback_def)

lemma NewServiceQuotas_built:
  assumes "NewServiceQuotas partitions sessionErr quotasClient c reg = (Some s, None)"
  shows "isAwsChina s = snd (isValidRegion partitions reg)"
    and "fst (isValidRegion partitions reg)"
    and "quotasService s = quotasClient"
    and "serviceQuotasUsageChecks s = fst (newUsageChecks c)"
    and "serviceDefaultUsageChecks s = fst (snd (newUsageChecks c))"
    and "otherUsageChecks s = snd (snd (newUsageChecks c))"
proof -
  obtain validRegion isChina where v: "isValidRegion partitions reg = (validRegion, isChina)"
    by (cases "isValidRegion partitions reg") auto
  obtain a b d where n: "newUsageChecks c = (a, b, d)" by (cases "newUsageChecks c") auto
  from assms v n have s: "s = \<lparr>region = reg, isAwsChina = isChina, quotasService = quotasClient,
                       serviceQuotasUsageChecks = a, serviceDefaultUsageChecks = b,
                       otherUsageChecks = d\<rparr>" and "validRegion"
    unfolding NewServiceQuotas_def by (simp_all split: if_splits)
  with v n show "isAwsChina s = snd (isValidRegion partitions reg)"
    and "fst (isValidRegion partitions reg)"
    and "quotasService s = quotasClient"
    and "serviceQuotasUsageChecks s = fst (newUsageChecks c)"
    and "serviceDefaultUsageChecks s = fst (snd (newUsageChecks c))"
    and "otherUsageChecks s = snd (snd (newUsageChecks c))"
    by simp_all
qed

lemma newUsageChecks_others:
  "snd (snd (newUsageChecks c)) = [AvailableIpsPerSubnetUsageCheck (ec2Client c), asgUsage c,
                                  MaxSendIn24HoursCheck (sesv2Client c)]"
  by (simp add: newUsageChecks_def)

lemma declaredNames_examples:
  "declaredNames ''L-0EA8095F'' = [inboundRulesPerSecGrpName, outboundRulesPerSecGrpName]"
  "declaredNames ''L-C7B9AAAB'' = [logGroupsPerRegionName]"
  by (simp_all add: declaredNames_def registeredNames_def)

text \<open>
  C1. In a region that supports the catalog, with the Glue quota \<open>L-5E4153CA\<close> listed,
  one Glue job, and the listing of its runs failing, \<open>QuotasAndUsage\<close> returns neither
  an error nor records: the panic of \<open>ConcurrentRunsCheck\<close> unwinds through it.
  (Whenever \<open>QuotasAndUsage\<close> does return, it returns either all records and a nil
  error, or a nil slice and an error: lemma \<open>QuotasAndUsage_result\<close>; and it returns
  whenever no walk or check panics: lemma \<open>QuotasAndUsage_no_panic\<close>.)
\<close>

theorem QuotasAndUsage_panics:
  "NewServiceQuotas examplePartitions None exampleQuotas throttledClients ''eu-west-1''
     = (Some (exampleRefresh throttledClients ''eu-west-1''), None)
   \<and> QuotasAndUsage (exampleRefresh throttledClients ''eu-west-1'')
     = Panics (PanicError (ApiError ''ThrottlingException''))"
proof
  show "NewServiceQuotas examplePartitions None exampleQuotas throttledClients ''eu-west-1''
     = (Some (exampleRefresh throttledClients ''eu-west-1''), None)"
    by (simp add: NewServiceQuotas_example)
  show "QuotasAndUsage (exampleRefresh throttledClients ''eu-west-1'')
     = Panics (PanicError (ApiError ''ThrottlingException''))"
    by (simp add: QuotasAndUsage_def exampleRefresh_def isValidRegion_example allServices_def
      quotasForService_def defaultsForService_def exampleQuotas_def walk_empty walk_single
      newUsageChecks_def reg_vpc reg_logs reg_glue checks_throttledClients
      withQuota_def elems_def)
qed

text \<open>
  C2, as stated, fails: in a region of the partition \<open>aws-cn\<close>, with one subnet
  \<open>10.0.1.0/24\<close>, the result holds the subnet's record with quota 256 and the SES
  record with quota 200.
\<close>

theorem china_quota_not_zero:
  "isValidRegion examplePartitions ''cn-north-1'' = (True, True)
   \<and> NewServiceQuotas examplePartitions None exampleQuotas subnetClients ''cn-north-1''
       = (Some (exampleRefresh subnetClients ''cn-north-1''), None)
   \<and> QuotasAndUsage (exampleRefresh subnetClients ''cn-north-1'')
       = Returns (Some [subnetInfo subnet24, sesRecord], None)
   \<and> Quota (subnetInfo subnet24) = 256 \<and> Quota sesRecord = 200"
proof (intro conjI)
  show "isValidRegion examplePartitions ''cn-north-1'' = (True, True)"
    by (simp add: isValidRegion_example)
  show "NewServiceQuotas examplePartitions None exampleQuotas subnetClients ''cn-north-1''
       = (Some (exampleRefresh subnetClients ''cn-north-1''), None)"
    by (simp add: NewServiceQuotas_example)
  show "QuotasAndUsage (exampleRefresh subnetClients ''cn-north-1'')
       = Returns (Some [subnetInfo subnet24, sesRecord], None)"
    by (simp add: QuotasAndUsage_def exampleRefresh_def isValidRegion_example newUsageChecks_def
        others_subnetClients elems_def)
  show "Quota (subnetInfo subnet24) = 256"
    by (simp add: subnetInfo_def subnet24_def Atoi_24)
  show "Quota sesRecord = 200" by (simp add: sesRecord_def)
qed

text \<open>
  C2, amended. For a region of the partition that does not support the catalog, the
  aggregator that \<open>NewServiceQuotas\<close> builds runs no catalog walk: the steps of a
  refresh are the three checks without a formal quota. When all three succeed, the refresh
  returns their records, unchanged and in order, and whenever it returns records, they are
  these. Their \<open>Quota\<close> is what the check itself has set.
\<close>

theorem china_only_other_checks:
  assumes "isValidRegion partitions reg = (True, True)"
    and "NewServiceQuotas partitions sessionErr quotasClient c reg = (Some s, None)"
  shows "isAwsChina s
     \<and> refreshSteps s = [AvailableIpsPerSubnetUsageCheck (ec2Client c), asgUsage c,
                          MaxSendIn24HoursCheck (sesv2Client c)]
     \<and> (\<forall>recs. QuotasAndUsage s = Returns (Some recs, None) \<longrightarrow>
           recs = checkRecords (AvailableIpsPerSubnetUsageCheck (ec2Client c))
                  @ checkRecords (asgUsage c)
                  @ checkRecords (MaxSendIn24HoursCheck (sesv2Client c)))
     \<and> (succeeds (AvailableIpsPerSubnetUsageCheck (ec2Client c)) \<and> succeeds (asgUsage c)
          \<and> succeeds (MaxSendIn24HoursCheck (sesv2Client c)) \<longrightarrow>
        QuotasAndUsage s =
          Returns (Some (checkRecords (AvailableIpsPerSubnetUsageCheck (ec2Client c))
                         @ checkRecords (asgUsage c)
                         @ checkRecords (MaxSendIn24HoursCheck (sesv2Client c))), None))"
proof -
  from NewServiceQuotas_built(1,6)[OF assms(2)] assms(1) have s: "isAwsChina s"
    and o: "otherUsageChecks s = [AvailableIpsPerSubnetUsageCheck (ec2Client c), asgUsage c,
                                  MaxSendIn24HoursCheck (sesv2Client c)]"
    by (simp_all add: newUsageChecks_others)
  then have steps: "refreshSteps s = [AvailableIpsPerSubnetUsageCheck (ec2Client c), asgUsage c,
                                      MaxSendIn24HoursCheck (sesv2Client c)]"
    by (simp add: refreshSteps_def)
  have a: "recs = checkRecords (AvailableIpsPerSubnetUsageCheck (ec2Client c))
                  @ checkRecords (asgUsage c)
                  @ checkRecords (MaxSendIn24HoursCheck (sesv2Client c))"
    if "QuotasAndUsage s = Returns (Some recs, None)" for recs
    using QuotasAndUsage_result[OF that] by (simp add: steps split: if_splits)
  have b: "QuotasAndUsage s =
          Returns (Some (checkRecords (AvailableIpsPerSubnetUsageCheck (ec2Client c))
                         @ checkRecords (asgUsage c)
                         @ checkRecords (MaxSendIn24HoursCheck (sesv2Client c))), None)"
    if "succeeds (AvailableIpsPerSubnetUsageCheck (ec2Client c)) \<and> succeeds (asgUsage c)
          \<and> succeeds (MaxSendIn24HoursCheck (sesv2Client c))"
    using QuotasAndUsage_succeeds[of s] that by (simp add: steps)
  from s steps a b show ?thesis by blast
qed

theorem china_only_other_checks_witness:
  "isValidRegion examplePartitions ''cn-north-1'' = (True, True)
   \<and> NewServiceQuotas examplePartitions None exampleQuotas subnetClients ''cn-north-1''
       = (Some (exampleRefresh subnetClients ''cn-north-1''), None)
   \<and> isAwsChina (exampleRefresh subnetClients ''cn-north-1'')
   \<and> QuotasAndUsage (exampleRefresh subnetClients ''cn-north-1'')
       = Returns (Some [subnetInfo subnet24, sesRecord], None)"
proof -
  have 1: "isValidRegion examplePartitions ''cn-north-1'' = (True, True)"
    by (simp add: isValidRegion_example)
  have 2: "NewServiceQuotas examplePartitions None exampleQuotas subnetClients ''cn-north-1''
       = (Some (exampleRefresh subnetClients ''cn-north-1''), None)"
    by (simp add: NewServiceQuotas_example)
  have 3: "succeeds (AvailableIpsPerSubnetUsageCheck (ec2Client subnetClients))
           \<and> succeeds (asgUsage subnetClients)
           \<and> succeeds (MaxSendIn24HoursCheck (sesv2Client subnetClients))"
    by (simp add: others_subnetClients succeeds_def)
  have 4: "checkRecords (AvailableIpsPerSubnetUsageCheck (ec2Client subnetClients))
             @ checkRecords (asgUsage subnetClients)
             @ checkRecords (MaxSendIn24HoursCheck (sesv2Client subnetClients))
           = [subnetInfo subnet24, sesRecord]"
    by (simp add: others_subnetClients checkRecords_def elems_def)
  from china_only_other_checks[OF 1 2] 3 have
    "isAwsChina (exampleRefresh subnetClients ''cn-north-1'')"
    "QuotasAndUsage (exampleRefresh subnetClients ''cn-north-1'') =
       Returns (Some (checkRecords (AvailableIpsPerSubnetUsageCheck (ec2Client subnetClients))
             @ checkRecords (asgUsage subnetClients)
             @ checkRecords (MaxSendIn24HoursCheck (sesv2Client subnetClients))), None)"
    by blast+
  with 1 2 4 show ?thesis by simp
qed

text \<open>
  C3, as stated, fails: the SES check returns its record with \<open>Quota\<close> set to the
  account's \<open>Max24HourSend\<close> (and the subnet check sets \<open>Quota\<close> to the size of the
  subnet, see C9).
\<close>

theorem MaxSendIn24Hours_sets_Quota:
  "MaxSendIn24HoursCheck (sesv2Client noClients) = Returns (Some [sesRecord], None)
   \<and> Quota sesRecord = 200 \<and> Quota sesRecord \<noteq> 0"
  by (simp add: others_noClients sesRecord_def)

text \<open>
  What a successful refresh returns, record by record.
\<close>

lemma walks_records:
  assumes "\<forall>service\<in>set services. succeeds (walkQuotas checks (listing service))"
  shows "concat (map checkRecords (map (\<lambda>service. walkQuotas checks (listing service)) services))
         = concat (map (\<lambda>service. concat (map (quotaRecords checks) (pagedItems (listing service)))) services)"
  using assms
  by (induction services) (simp_all add: walkQuotas_records walkQuotas_succeeds_iff)

lemma QuotasAndUsage_records:
  assumes "QuotasAndUsage s = Returns (Some recs, None)"
  shows "recs = refreshRecords s"
proof -
  from QuotasAndUsage_result[OF assms]
  have all: "\<forall>step\<in>set (refreshSteps s). succeeds step"
    and recs: "recs = concat (map checkRecords (refreshSteps s))"
    by (auto split: if_splits)
  show ?thesis
  proof (cases "isAwsChina s")
    case True
    with recs show ?thesis by (simp add: refreshSteps_def refreshRecords_def)
  next
    case False
    let ?q = "\<lambda>service. walkQuotas (serviceQuotasUsageChecks s) (ListServiceQuotasPages (quotasService s) service)"
    let ?d = "\<lambda>service. walkQuotas (serviceDefaultUsageChecks s) (ListAWSDefaultServiceQuotasPages (quotasService s) service)"
    have q: "quotasForService s = ?q" and d: "defaultsForService s = ?d"
      by (auto simp: quotasForService_def defaultsForService_def)
    from all False have "\<forall>service\<in>set allServices. succeeds (?q service)"
      and "\<forall>service\<in>set allServices. succeeds (?d service)"
      by (auto simp: refreshSteps_def q d)
    from walks_records[OF this(1)] walks_records[OF this(2)] recs False
    show ?thesis by (simp add: refreshSteps_def refreshRecords_def walkRecords_def q d)
  qed
qed

lemma default_quota_merged:
  assumes "QuotasAndUsage s = Returns (Some recs, None)"
    and "\<not> isAwsChina s"
    and "service \<in> set allServices"
    and "quota \<in> set (pagedItems (ListAWSDefaultServiceQuotasPages (quotasService s) service))"
    and "serviceDefaultUsageChecks s (QuotaCode quota) = Some check"
    and "r \<in> set (checkRecords check)"
  shows "r\<lparr>Quota := Value quota\<rparr> \<in> set recs"
proof -
  from assms(5,6) have "r\<lparr>Quota := Value quota\<rparr> \<in> set (quotaRecords (serviceDefaultUsageChecks s) quota)"
    by (simp add: quotaRecords_def)
  with assms(3,4) have "r\<lparr>Quota := Value quota\<rparr>
      \<in> set (walkRecords (serviceDefaultUsageChecks s) (ListAWSDefaultServiceQuotasPages (quotasService s)))"
    unfolding walkRecords_def by auto
  with QuotasAndUsage_records[OF assms(1)] assms(2) show ?thesis
    by (simp add: refreshRecords_def)
qed

lemma other_check_untouched:
  assumes "QuotasAndUsage s = Returns (Some recs, None)"
    and "check \<in> set (otherUsageChecks s)"
    and "r \<in> set (checkRecords check)"
  shows "r \<in> set recs"
  using QuotasAndUsage_records[OF assms(1)] assms(2,3) by (auto simp: refreshRecords_def)

lemma reg_ecr:
  "map_of (serviceDefaultUsageCheckList c) ''L-CFEB8E8D'' = Some (RepositoriesPerRegionCheck (ecrClient c))"
  by (simp add: serviceDefaultUsageCheckList_def)

lemma Repositories_noClients:
  "RepositoriesPerRegionCheck (ecrClient noClients) =
     Returns (Some [newQuotaUsage repositoriesPerRegionName None repositoriesPerRegionDescription 0 None], None)"
  by (simp add: noClients_def noECR_def RepositoriesPerRegionCheck_def usageOrError_def onPage_def
      repositoriesPage_def add64_def wrap64_def len_def)

lemma defaultRefresh_result:
  "QuotasAndUsage defaultRefresh =
     Returns (Some [(newQuotaUsage logGroupsPerRegionName None logGroupsPerRegionDescription 0 None)\<lparr>Quota := 1000000\<rparr>,
                    (newQuotaUsage concurrentRunsName None concurrentRunsDescription 0 None)\<lparr>Quota := 50\<rparr>,
                    (newQuotaUsage repositoriesPerRegionName None repositoriesPerRegionDescription 0 None)\<lparr>Quota := 10000\<rparr>,
                    sesRecord], None)"
  by (simp add: QuotasAndUsage_def defaultRefresh_def defaultQuotas_def exampleRefresh_def
      isValidRegion_example allServices_def
      quotasForService_def defaultsForService_def exampleQuotas_def walk_empty walk_single
      newUsageChecks_def reg_vpc reg_logs reg_glue reg_ecr checks_noClients others_noClients
      Repositories_noClients withQuota_def elems_def)

lemma registered_checks_unset:
  assumes "(code, check) \<in> set (serviceQuotasUsageCheckList c @ serviceDefaultUsageCheckList c)"
    and "r \<in> set (returnedRecords check)"
  shows "Quota r = 0 \<and> Name r \<in> set (declaredNames code)"
proof -
  from assms(1) have "\<forall>r\<in>set (returnedRecords check). unset (declaredNames code) r"
    using serviceQuotasUsageCheckList_unset[of code check c]
      serviceDefaultUsageCheckList_unset[of code check c]
    by (simp only: set_append Un_iff) blast
  with assms(2) show ?thesis by (simp add: unset_def)
qed

text \<open>
  C3, amended. Every check that \<open>newUsageChecks\<close> registers under a quota code, in
  either registry, leaves \<open>Quota\<close> at zero in every record it returns, and names the
  record with one of its declared names. The aggregator assigns \<open>Quota\<close> once, after
  the check has returned: the records of a successful refresh are exactly
  \<open>refreshRecords\<close>, that is, on the service-specific and on the default path alike the
  records of the registered check with \<open>Quota\<close> set to the catalog's value and no other
  field changed, and then the records of the checks without a formal quota, untouched.
\<close>

theorem Quota_assigned_once_by_aggregator:
  "((code, check) \<in> set (serviceQuotasUsageCheckList c @ serviceDefaultUsageCheckList c)
      \<longrightarrow> r \<in> set (returnedRecords check)
      \<longrightarrow> Quota r = 0 \<and> Name r \<in> set (declaredNames code))
   \<and> (QuotasAndUsage s = Returns (Some recs, None) \<longrightarrow> recs = refreshRecords s)"
  using registered_checks_unset[of code check c r] QuotasAndUsage_records[of s recs] by blast

theorem Quota_assigned_once_by_aggregator_witness:
  "(''L-CFEB8E8D'', RepositoriesPerRegionCheck (ecrClient noClients))
      \<in> set (serviceQuotasUsageCheckList noClients @ serviceDefaultUsageCheckList noClients)
   \<and> newQuotaUsage repositoriesPerRegionName None repositoriesPerRegionDescription 0 None
      \<in> set (returnedRecords (RepositoriesPerRegionCheck (ecrClient noClients)))
   \<and> Quota (newQuotaUsage repositoriesPerRegionName None repositoriesPerRegionDescription 0 None) = 0
   \<and> Name (newQuotaUsage repositoriesPerRegionName None repositoriesPerRegionDescription 0 None)
       \<in> set (declaredNames ''L-CFEB8E8D'')
   \<and> serviceDefaultUsageChecks defaultRefresh ''L-CFEB8E8D''
       = Some (RepositoriesPerRegionCheck (ecrClient noClients))
   \<and> QuotasAndUsage defaultRefresh =
       Returns (Some [(newQuotaUsage logGroupsPerRegionName None logGroupsPerRegionDescription 0 None)\<lparr>Quota := 1000000\<rparr>,
                      (newQuotaUsage concurrentRunsName None concurrentRunsDescription 0 None)\<lparr>Quota := 50\<rparr>,
                      (newQuotaUsage repositoriesPerRegionName None repositoriesPerRegionDescription 0 None)\<lparr>Quota := 10000\<rparr>,
                      sesRecord], None)
   \<and> refreshRecords defaultRefresh =
       [(newQuotaUsage logGroupsPerRegionName None logGroupsPerRegionDescription 0 None)\<lparr>Quota := 1000000\<rparr>,
        (newQuotaUsage concurrentRunsName None concurrentRunsDescription 0 None)\<lparr>Quota := 50\<rparr>,
        (newQuotaUsage repositoriesPerRegionName None repositoriesPerRegionDescription 0 None)\<lparr>Quota := 10000\<rparr>,
        sesRecord]"
proof -
  let ?r = "newQuotaUsage repositoriesPerRegionName None repositoriesPerRegionDescription 0 None"
  let ?check = "RepositoriesPerRegionCheck (ecrClient noClients)"
  let ?recs = "[(newQuotaUsage logGroupsPerRegionName None logGroupsPerRegionDescription 0 None)\<lparr>Quota := 1000000\<rparr>,
                (newQuotaUsage concurrentRunsName None concurrentRunsDescription 0 None)\<lparr>Quota := 50\<rparr>,
                ?r\<lparr>Quota := 10000\<rparr>, sesRecord]"
  have 1: "(''L-CFEB8E8D'', ?check)
      \<in> set (serviceQuotasUsageCheckList noClients @ serviceDefaultUsageCheckList noClients)"
    by (simp add: serviceDefaultUsageCheckList_def)
  have 2: "?r \<in> set (returnedRecords ?check)"
    by (simp add: Repositories_noClients returnedRecords_def elems_def)
  have 3: "QuotasAndUsage defaultRefresh = Returns (Some ?recs, None)"
    by (rule defaultRefresh_result)
  have 4: "serviceDefaultUsageChecks defaultRefresh ''L-CFEB8E8D'' = Some ?check"
    by (simp add: defaultRefresh_def exampleRefresh_def newUsageChecks_def reg_ecr)
  from Quota_assigned_once_by_aggregator[of "''L-CFEB8E8D''" ?check noClients ?r defaultRefresh ?recs] 1 2 3
  have 5: "Quota ?r = 0 \<and> Name ?r \<in> set (declaredNames ''L-CFEB8E8D'')"
    and 6: "?recs = refreshRecords defaultRefresh"
    by blast+
  from 1 2 3 4 5 6 show ?thesis by simp
qed

text \<open>
  C7, as stated, fails: the quota \<open>L-0EA8095F\<close> is listed for \<open>vpc\<close> and registered
  (rules per security group), the account has no security group, the refresh succeeds, and
  no record of the result has one of the check's names.
\<close>

theorem no_security_groups_no_record:
  "\<lparr>QuotaCode = ''L-0EA8095F'', Value = 60\<rparr>
      \<in> set (pagedItems (ListServiceQuotasPages (quotasService (exampleRefresh noClients ''eu-west-1'')) ''vpc''))
   \<and> ''vpc'' \<in> set allServices
   \<and> serviceQuotasUsageChecks (exampleRefresh noClients ''eu-west-1'') ''L-0EA8095F''
       = Some (RulesPerSecurityGroupUsageCheck (ec2Client noClients))
   \<and> declaredNames ''L-0EA8095F'' = [inboundRulesPerSecGrpName, outboundRulesPerSecGrpName]
   \<and> (\<exists>recs. QuotasAndUsage (exampleRefresh noClients ''eu-west-1'') = Returns (Some recs, None)
         \<and> map Name recs = [logGroupsPerRegionName, concurrentRunsName, maxSendIn24HoursName]
         \<and> \<not> (\<exists>r\<in>set recs. Name r \<in> set (declaredNames ''L-0EA8095F'') \<and> Quota r = 60))"
proof (intro conjI)
  show "\<lparr>QuotaCode = ''L-0EA8095F'', Value = 60\<rparr>
      \<in> set (pagedItems (ListServiceQuotasPages (quotasService (exampleRefresh noClients ''eu-west-1'')) ''vpc''))"
    by (simp add: exampleRefresh_def exampleQuotas_def elems_def)
  show "''vpc'' \<in> set allServices" by (simp add: allServices_def)
  show "serviceQuotasUsageChecks (exampleRefresh noClients ''eu-west-1'') ''L-0EA8095F''
       = Some (RulesPerSecurityGroupUsageCheck (ec2Client noClients))"
    by (simp add: exampleRefresh_def newUsageChecks_def reg_vpc)
  show "declaredNames ''L-0EA8095F'' = [inboundRulesPerSecGrpName, outboundRulesPerSecGrpName]"
    by (rule declaredNames_examples)
  show "\<exists>recs. QuotasAndUsage (exampleRefresh noClients ''eu-west-1'') = Returns (Some recs, None)
         \<and> map Name recs = [logGroupsPerRegionName, concurrentRunsName, maxSendIn24HoursName]
         \<and> \<not> (\<exists>r\<in>set recs. Name r \<in> set (declaredNames ''L-0EA8095F'') \<and> Quota r = 60)"
    unfolding example_result declaredNames_examples
    by (simp add: newQuotaUsage_def sesRecord_def)
qed

text \<open>
  C7, amended. When a refresh returns its records in a region that supports the catalog,
  then for every quota listed for one of the services and registered in the service-specific
  registry, every record that the registered check returned is in the result with
  \<open>Quota\<close> set to the catalog's value; so if the check returned at least one record, the
  result has a record with one of the check's declared names and that quota.
\<close>

theorem catalog_quota_in_result:
  assumes "QuotasAndUsage s = Returns (Some recs, None)"
    and "\<not> isAwsChina s"
    and "serviceQuotasUsageChecks s = fst (newUsageChecks c)"
    and "service \<in> set allServices"
    and "quota \<in> set (pagedItems (ListServiceQuotasPages (quotasService s) service))"
    and "serviceQuotasUsageChecks s (QuotaCode quota) = Some check"
  shows "(\<forall>r\<in>set (checkRecords check). r\<lparr>Quota := Value quota\<rparr> \<in> set recs)
       \<and> (checkRecords check \<noteq> [] \<longrightarrow>
            (\<exists>r\<in>set recs. Name r \<in> set (declaredNames (QuotaCode quota)) \<and> Quota r = Value quota))"
proof -
  have merged: "\<forall>r\<in>set (checkRecords check). r\<lparr>Quota := Value quota\<rparr> \<in> set recs"
    using catalog_quota_merged[OF assms(1,2,4,5,6)] by blast
  from assms(3,6) have "map_of (serviceQuotasUsageCheckList c) (QuotaCode quota) = Some check"
    by (simp add: newUsageChecks_def)
  then have "(QuotaCode quota, check) \<in> set (serviceQuotasUsageCheckList c)"
    by (rule map_of_SomeD)
  from serviceQuotasUsageCheckList_unset[OF this] checkRecords_returned[of check]
  have names: "\<forall>r\<in>set (checkRecords check). Name r \<in> set (declaredNames (QuotaCode quota))"
    unfolding unset_def by blast
  have "\<exists>r\<in>set recs. Name r \<in> set (declaredNames (QuotaCode quota)) \<and> Quota r = Value quota"
    if "checkRecords check \<noteq> []"
  proof -
    from that obtain r where r: "r \<in> set (checkRecords check)" by (cases "checkRecords check") auto
    with merged names have "r\<lparr>Quota := Value quota\<rparr> \<in> set recs"
      and "Name r \<in> set (declaredNames (QuotaCode quota))" by blast+
    then show ?thesis by (intro bexI[of _ "r\<lparr>Quota := Value quota\<rparr>"]) simp_all
  qed
  with merged show ?thesis by blast
qed

theorem catalog_quota_in_result_witness:
  "QuotasAndUsage (exampleRefresh noClients ''eu-west-1'') =
     Returns (Some [(newQuotaUsage logGroupsPerRegionName None logGroupsPerRegionDescription 0 None)\<lparr>Quota := 1000000\<rparr>,
                    (newQuotaUsage concurrentRunsName None concurrentRunsDescription 0 None)\<lparr>Quota := 50\<rparr>,
                    sesRecord], None)
   \<and> \<not> isAwsChina (exampleRefresh noClients ''eu-west-1'')
   \<and> ''logs'' \<in> set allServices
   \<and> serviceQuotasUsageChecks (exampleRefresh noClients ''eu-west-1'') ''L-C7B9AAAB''
       = Some (LogGroupsPerRegionCheck (logsClient noClients))
   \<and> checkRecords (LogGroupsPerRegionCheck (logsClient noClients)) \<noteq> []
   \<and> (\<exists>r\<in>set [(newQuotaUsage logGroupsPerRegionName None logGroupsPerRegionDescription 0 None)\<lparr>Quota := 1000000\<rparr>,
                    (newQuotaUsage concurrentRunsName None concurrentRunsDescription 0 None)\<lparr>Quota := 50\<rparr>,
                    sesRecord].
         Name r \<in> set (declaredNames ''L-C7B9AAAB'') \<and> Quota r = 1000000)"
proof -
  let ?s = "exampleRefresh noClients ''eu-west-1''"
  let ?q = "\<lparr>QuotaCode = ''L-C7B9AAAB'', Value = 1000000\<rparr>"
  note 1 = example_result
  have 2: "\<not> isAwsChina ?s" by (rule exampleRefresh_commercial)
  have 3: "serviceQuotasUsageChecks ?s = fst (newUsageChecks noClients)" by (simp add: exampleRefresh_def)
  have 4: "''logs'' \<in> set allServices" by (simp add: allServices_def)
  have 5: "?q \<in> set (pagedItems (ListServiceQuotasPages (quotasService ?s) ''logs''))"
    by (simp add: exampleRefresh_def exampleQuotas_def elems_def)
  have 6: "serviceQuotasUsageChecks ?s (QuotaCode ?q) = Some (LogGroupsPerRegionCheck (logsClient noClients))"
    by (simp add: exampleRefresh_def newUsageChecks_def reg_logs)
  have l6: "serviceQuotasUsageChecks ?s ''L-C7B9AAAB'' = Some (LogGroupsPerRegionCheck (logsClient noClients))"
    using 6 by simp
  have 7: "checkRecords (LogGroupsPerRegionCheck (logsClient noClients)) \<noteq> []"
    by (simp add: checks_noClients checkRecords_def elems_def)
  from catalog_quota_in_result[OF 1 2 3 4 5 6] 7
  have 8: "\<exists>r\<in>set [(newQuotaUsage logGroupsPerRegionName None logGroupsPerRegionDescription 0 None)\<lparr>Quota := 1000000\<rparr>,
                    (newQuotaUsage concurrentRunsName None concurrentRunsDescription 0 None)\<lparr>Quota := 50\<rparr>,
                    sesRecord].
         Name r \<in> set (declaredNames ''L-C7B9AAAB'') \<and> Quota r = 1000000"
    by simp
  from 1 2 4 l6 7 8 show ?thesis by blast
qed

end
